theory Spec2Isabelle
  imports Main
begin

text \<open>
  A model of the Mailjet state reporter, \<^verbatim>\<open>src/mailjet_state_reporter/__init__.py\<close>;
  line numbers refer to that file. Each function of the source is a function here, with
  the source's name. What the source does to the outside is made explicit:
  \<^item> a function that can raise returns a sum, \<open>Inl\<close> the exception;
  \<^item> the provider is a parameter (\<open>world\<close>) that answers each request, and the
    library calls for dates and string formatting are a parameter too (\<open>pylib\<close>);
  \<^item> requests, log lines and the steps of the state-file write are collected as events,
    in the order in which they happen;
  \<^item> the page loop of \<^verbatim>\<open>get_mailjet_data_list\<close> has no bound in the source, so it
    and everything that calls it return an option, \<open>None\<close> for a run that never ends.
\<close>

section \<open>Python values, exceptions and dictionaries\<close>

text \<open>
  The program handles decoded JSON (provider responses, the state file) without any
  schema check, so these values are modelled untyped, as Python has them. Floating
  point numbers are left out. A dictionary is an association list in insertion order
  whose first entry for a key is the one a lookup finds.
\<close>

datatype pyval =
    PNone
  | PBool bool
  | PInt int
  | PStr string
  | PList "pyval list"
  | PDict "(string \<times> pyval) list"

datatype exn =
    KeyError
  | TypeError
  | AttributeError
  | JSONDecodeError
  | RequestException
  | LibraryError string

type_synonym pydict = "(string \<times> pyval) list"

definition bind_r :: "exn + 'a \<Rightarrow> ('a \<Rightarrow> exn + 'b) \<Rightarrow> exn + 'b" where
  "bind_r m f = (case m of Inl e \<Rightarrow> Inl e | Inr x \<Rightarrow> f x)"

text \<open>\<^verbatim>\<open>d[k] = v\<close> on a dictionary: an existing key keeps its place.\<close>

fun dict_set :: "('k \<times> 'v) list \<Rightarrow> 'k \<Rightarrow> 'v \<Rightarrow> ('k \<times> 'v) list" where
  "dict_set [] k v = [(k, v)]"
| "dict_set ((k', v') # d) k v =
     (if k' = k then (k', v) # d else (k', v') # dict_set d k v)"

text \<open>\<^verbatim>\<open>a | b\<close>: the entries of \<open>b\<close> win.\<close>

definition dict_or :: "('k \<times> 'v) list \<Rightarrow> ('k \<times> 'v) list \<Rightarrow> ('k \<times> 'v) list" where
  "dict_or a b = foldl (\<lambda>d kv. dict_set d (fst kv) (snd kv)) a b"

text \<open>\<^verbatim>\<open>obj[key]\<close> for a string key: only a dictionary can be subscripted by a string.\<close>

fun subscript :: "pyval \<Rightarrow> string \<Rightarrow> exn + pyval" where
  "subscript (PDict d) k = (case map_of d k of None \<Rightarrow> Inl KeyError | Some v \<Rightarrow> Inr v)"
| "subscript _ k = Inl TypeError"

text \<open>Iteration, as \<^verbatim>\<open>list.extend\<close> and \<^verbatim>\<open>for\<close> do it.\<close>

fun py_iter :: "pyval \<Rightarrow> exn + pyval list" where
  "py_iter (PList xs) = Inr xs"
| "py_iter (PStr s) = Inr (map (\<lambda>c. PStr [c]) s)"
| "py_iter (PDict d) = Inr (map (\<lambda>kv. PStr (fst kv)) d)"
| "py_iter _ = Inl TypeError"

text \<open>A value used as an integer operand: \<^verbatim>\<open>bool\<close> is a subclass of \<^verbatim>\<open>int\<close>.\<close>

fun as_int :: "pyval \<Rightarrow> exn + int" where
  "as_int (PInt n) = Inr n"
| "as_int (PBool b) = Inr (if b then 1 else 0)"
| "as_int _ = Inl TypeError"

section \<open>The provider and the events of a run\<close>

datatype api = MAILJET_MESSAGE_API | MAILJET_APIKEY_API | MAILJET_MAIL_SEND_API

text \<open>
  A request either fails at the transport layer (\<^verbatim>\<open>RequestException\<close>) or is
  answered with a status code and a body; the body is \<open>None\<close> where
  \<^verbatim>\<open>json.loads\<close> raises \<^verbatim>\<open>JSONDecodeError\<close> on it.
\<close>

datatype response = TransportFailure | Reply int "pyval option"

type_synonym auth = "pyval \<times> pyval"

record world =
  http_get :: "api \<Rightarrow> auth \<Rightarrow> pydict \<Rightarrow> response"
  http_post :: "api \<Rightarrow> auth \<Rightarrow> pyval \<Rightarrow> response"

datatype level = DEBUG | INFO | WARNING | ERROR

datatype event =
    Get api auth pydict
  | Post api auth pyval
  | Log level string
  | StateOpenW
  | StateDump pyval
  | StateFlush
  | StateFsync
  | StateClose

section \<open>get_mailjet_data_list\<close>

definition BATCH_LIMIT :: int where
  "BATCH_LIMIT = 200"

datatype page_result = PageRaise exn | PageBreak "pyval list" | PageNext int "pyval list"

text \<open>
  One pass through the body of \<^verbatim>\<open>while True\<close> after the request has been
  answered: lines 70 to 75.
\<close>

definition page_body :: "pyval \<Rightarrow> int \<Rightarrow> pyval list \<Rightarrow> response \<Rightarrow> page_result" where
  "page_body count offset data r =
     (case r of
        TransportFailure \<Rightarrow> PageRaise RequestException
      | Reply sc None \<Rightarrow> PageRaise JSONDecodeError
      | Reply sc (Some batch) \<Rightarrow>
          (case subscript batch ''Count'' of
             Inl e \<Rightarrow> PageRaise e
           | Inr batch_count \<Rightarrow>
               (case bind_r (subscript batch ''Data'') py_iter of
                  Inl e \<Rightarrow> PageRaise e
                | Inr items \<Rightarrow>
                    (case as_int batch_count of
                       Inl e \<Rightarrow> PageRaise e
                     | Inr n \<Rightarrow>
                         if n = 0 then PageBreak (data @ items)
                         else (case as_int count of
                                 Inl e \<Rightarrow> PageRaise e
                               | Inr c \<Rightarrow>
                                   if offset + n \<ge> c then PageBreak (data @ items)
                                   else PageNext (offset + n) (data @ items))))))"

text \<open>
  The loop of lines 67 to 75. It has no bound of its own: a provider that answers with
  negative counts keeps it running, and then the model returns \<open>None\<close>.
\<close>

partial_function (option) page_loop ::
  "world \<Rightarrow> api \<Rightarrow> auth \<Rightarrow> pydict \<Rightarrow> pyval \<Rightarrow> int \<Rightarrow> pyval list \<Rightarrow> event list
     \<Rightarrow> (event list \<times> (exn + pyval list)) option" where
  "page_loop w a au params count offset data tr =
     (let query_params = dict_or [(''Limit'', PInt BATCH_LIMIT), (''Offset'', PInt offset)] params;
          tr' = tr @ [Get a au query_params]
      in case page_body count offset data (http_get w a au query_params) of
           PageRaise e \<Rightarrow> Some (tr', Inl e)
         | PageBreak data' \<Rightarrow> Some (tr', Inr data')
         | PageNext offset' data' \<Rightarrow> page_loop w a au params count offset' data' tr')"

text \<open>
  The count probe of lines 53 to 63. Its \<^verbatim>\<open>except\<close> clause names
  \<^verbatim>\<open>KeyError\<close>, \<^verbatim>\<open>JSONDecodeError\<close> and \<^verbatim>\<open>RequestException\<close>; a
  \<^verbatim>\<open>TypeError\<close> from subscripting a body that is not an object passes through it.
\<close>

definition count_probe :: "response \<Rightarrow> exn + pyval option" where
  "count_probe r =
     (case r of
        TransportFailure \<Rightarrow> Inr None
      | Reply sc None \<Rightarrow> Inr None
      | Reply sc (Some body) \<Rightarrow>
          (case subscript body ''Count'' of
             Inl KeyError \<Rightarrow> Inr None
           | Inl e \<Rightarrow> Inl e
           | Inr count \<Rightarrow> Inr (Some count)))"

definition get_mailjet_data_list ::
  "world \<Rightarrow> api \<Rightarrow> auth \<Rightarrow> pydict option
     \<Rightarrow> (event list \<times> (exn + pyval list option)) option" where
  "get_mailjet_data_list w a au params_opt =
     (let params = (case params_opt of None \<Rightarrow> [] | Some p \<Rightarrow> p);
          query_params = dict_or [(''countOnly'', PInt 1)] params;
          tr = [Get a au query_params]
      in case count_probe (http_get w a au query_params) of
           Inl e \<Rightarrow> Some (tr, Inl e)
         | Inr None \<Rightarrow>
             Some (tr @ [Log ERROR ''Error fetching count from API %s: %s''], Inr None)
         | Inr (Some count) \<Rightarrow>
             (case page_loop w a au params count 0 [] tr of
                None \<Rightarrow> None
              | Some (tr', Inl e) \<Rightarrow> Some (tr', Inl e)
              | Some (tr', Inr data) \<Rightarrow> Some (tr', Inr (Some data))))"

section \<open>Library functions the source calls\<close>

text \<open>
  The date and string formatting of the Python library is not part of the repository;
  it is a parameter of the model:
  \<^item> \<open>strftime_ts ts tz fmt\<close> is
    \<^verbatim>\<open>datetime.fromtimestamp(ts).astimezone(ZoneInfo(tz)).strftime(fmt)\<close>,
  \<^item> \<open>strftime_iso s tz fmt\<close> is the same from \<^verbatim>\<open>datetime.fromisoformat(s)\<close>,
  \<^item> \<open>str_format t a b\<close> is \<^verbatim>\<open>t.format(a, b)\<close>,
  \<^item> \<open>str_of v\<close> is \<^verbatim>\<open>str(v)\<close>.
  The first three can raise.
\<close>

record pylib =
  strftime_ts :: "pyval \<Rightarrow> string \<Rightarrow> string \<Rightarrow> exn + string"
  strftime_iso :: "pyval \<Rightarrow> string \<Rightarrow> string \<Rightarrow> exn + string"
  str_format :: "string \<Rightarrow> string \<Rightarrow> string \<Rightarrow> exn + string"
  str_of :: "pyval \<Rightarrow> string"

text \<open>A value inside an f-string: a string is rendered as it is.\<close>

definition fstr :: "pylib \<Rightarrow> pyval \<Rightarrow> string" where
  "fstr L v = (case v of PStr s \<Rightarrow> s | _ \<Rightarrow> str_of L v)"

definition time_from_timestamp :: "pylib \<Rightarrow> pyval \<Rightarrow> string \<Rightarrow> string \<Rightarrow> exn + string" where
  "time_from_timestamp L ts fmt tz = strftime_ts L ts tz fmt"

definition time_from_iso_format :: "pylib \<Rightarrow> pyval \<Rightarrow> string \<Rightarrow> string \<Rightarrow> exn + string" where
  "time_from_iso_format L date_time fmt tz = strftime_iso L date_time tz fmt"

section \<open>Configuration\<close>

text \<open>
  The configuration document has the shape the program's type annotations give it. Every
  key the program tests for or reads with a default is optional; the keys the program
  itself adds while validating (\<open>valid\<close>, \<open>profile_details\<close>) are fields too.
\<close>

record recipient =
  to_email :: "pyval option"
  to_name :: "pyval option"

record profile =
  template_id :: "pyval option"
  subject :: "string option"
  from_email :: "pyval option"
  from_name :: "pyval option"
  p_time_format :: "string option"
  report_in_detail :: "string list option"
  p_skip_if_no_details :: "bool option"
  p_skip_if_no_data :: "bool option"
  p_valid :: "bool option"

record subaccount =
  name :: "string option"
  profile :: "string option"
  report_days :: "string option"
  recipients :: "recipient list option"
  skip_if_no_details :: "bool option"
  skip_if_no_data :: "bool option"
  profile_details :: "profile option"
  valid :: "bool option"

record global_settings =
  timezone :: "string option"
  g_time_format :: "string option"
  g_report_days :: "string option"
  default_max_report_days :: "int option"

record config =
  global_settings :: "global_settings option"
  status_translations :: "(string \<times> string) list option"
  profiles :: "(string \<times> profile) list option"
  subaccount_reports :: "subaccount list option"

text \<open>\<^verbatim>\<open>d.get(key, default)\<close> and \<^verbatim>\<open>d[key]\<close> on an optional key.\<close>

definition get_or :: "'a option \<Rightarrow> 'a \<Rightarrow> 'a" where
  "get_or x d = (case x of None \<Rightarrow> d | Some v \<Rightarrow> v)"

definition item :: "'a option \<Rightarrow> exn + 'a" where
  "item x = (case x of None \<Rightarrow> Inl KeyError | Some v \<Rightarrow> Inr v)"

definition get_global_settings :: "config \<Rightarrow> global_settings" where
  "get_global_settings cfg =
     get_or (global_settings cfg)
       \<lparr>timezone = None, g_time_format = None, g_report_days = None,
        default_max_report_days = None\<rparr>"

section \<open>Dictionaries keyed by provider values\<close>

text \<open>
  The statistics, the details and the subaccount directory are keyed by values taken from
  provider responses. Python compares keys with \<^verbatim>\<open>==\<close>, under which
  \<^verbatim>\<open>True\<close> is 1 and \<^verbatim>\<open>False\<close> is 0; lists and dictionaries cannot be keys.
\<close>

fun key_norm :: "pyval \<Rightarrow> pyval" where
  "key_norm (PBool b) = PInt (if b then 1 else 0)"
| "key_norm v = v"

fun hashable :: "pyval \<Rightarrow> bool" where
  "hashable (PList xs) = False"
| "hashable (PDict d) = False"
| "hashable v = True"

fun kd_get :: "(pyval \<times> 'v) list \<Rightarrow> pyval \<Rightarrow> 'v option" where
  "kd_get [] k = None"
| "kd_get ((k', v) # d) k = (if key_norm k' = key_norm k then Some v else kd_get d k)"

fun kd_set :: "(pyval \<times> 'v) list \<Rightarrow> pyval \<Rightarrow> 'v \<Rightarrow> (pyval \<times> 'v) list" where
  "kd_set [] k v = [(k, v)]"
| "kd_set ((k', v') # d) k v =
     (if key_norm k' = key_norm k then (k', v) # d else (k', v') # kd_set d k v)"

text \<open>A loop whose body can raise: the first exception ends it.\<close>

fun mapM_r :: "('a \<Rightarrow> exn + 'b) \<Rightarrow> 'a list \<Rightarrow> exn + 'b list" where
  "mapM_r f [] = Inr []"
| "mapM_r f (x # xs) = bind_r (f x) (\<lambda>y. bind_r (mapM_r f xs) (\<lambda>ys. Inr (y # ys)))"

section \<open>Aggregation of the fetched records (lines 443 to 455)\<close>

definition MESSAGE_FIELDS :: "(string \<times> string) list" where
  "MESSAGE_FIELDS =
     [(''ID'', ''id''), (''ArrivedAt'', ''date_time''), (''ContactAlt'', ''contact''),
      (''Status'', ''state''), (''Subject'', ''subject'')]"

text \<open>The dictionary comprehension of lines 447 to 451.\<close>

definition detail_row :: "pydict \<Rightarrow> pydict" where
  "detail_row message =
     List.map_filter
       (\<lambda>fh. map_option (\<lambda>v. (snd fh, v)) (map_of message (fst fh))) MESSAGE_FIELDS"

text \<open>The entries of a record that is an object.\<close>

definition fields_of :: "pyval \<Rightarrow> pydict" where
  "fields_of m = (case m of PDict d \<Rightarrow> d | _ \<Rightarrow> [])"

type_synonym stats = "(pyval \<times> int) list"
type_synonym details = "(pyval \<times> pydict list) list"

text \<open>
  One pass through the loop body. The membership test in the set of detail statuses
  hashes the status first.
\<close>

definition process_message ::
  "string list \<Rightarrow> stats \<times> details \<Rightarrow> pyval \<Rightarrow> exn + (stats \<times> details)" where
  "process_message report_details_fields acc message =
     (case subscript message ''Status'' of
        Inl e \<Rightarrow> Inl e
      | Inr message_status \<Rightarrow>
          if \<not> hashable message_status then Inl TypeError
          else
            let st = fst acc; dt = snd acc;
                dt' = (if message_status \<in> PStr ` set report_details_fields
                       then kd_set dt message_status
                              (get_or (kd_get dt message_status) [] @
                                 [detail_row (fields_of message)])
                       else dt)
            in Inr (kd_set st message_status (get_or (kd_get st message_status) 0 + 1), dt'))"

fun process_messages ::
  "string list \<Rightarrow> stats \<times> details \<Rightarrow> pyval list \<Rightarrow> exn + (stats \<times> details)" where
  "process_messages report_details_fields acc [] = Inr acc"
| "process_messages report_details_fields acc (m # ms) =
     bind_r (process_message report_details_fields acc m)
       (\<lambda>acc'. process_messages report_details_fields acc' ms)"

section \<open>Rendering\<close>

definition REPORT_DETAILS_FIELDS :: "(string \<times> string) list" where
  \<open>REPORT_DETAILS_FIELDS =
     [(''date_time'', ''style="white-space:nowrap;"''),
      (''contact'', ''style="white-space:nowrap;width:200px;"''),
      (''subject'', [])]\<close>

text \<open>\<^verbatim>\<open>status_translations.get(key, key)\<close> as an f-string renders it.\<close>

definition status_label :: "pylib \<Rightarrow> (string \<times> string) list \<Rightarrow> pyval \<Rightarrow> string" where
  "status_label L translations k =
     (case k of
        PStr s \<Rightarrow> get_or (map_of translations s) s
      | _ \<Rightarrow> str_of L k)"

definition gen_message_stats_html :: "pylib \<Rightarrow> config \<Rightarrow> stats \<Rightarrow> string" where
  \<open>gen_message_stats_html L cfg message_stats =
     (let translations = get_or (status_translations cfg) []
      in ''<table>'' @
         concat (map (\<lambda>sc. ''<tr><td style="width:200px;">'' @
                           status_label L translations (fst sc) @ ''</td><td>'' @
                           str_of L (PInt (snd sc)) @ ''</td></tr>'') message_stats) @
         ''</table>'')\<close>

text \<open>One cell: lines 147 to 155. \<^verbatim>\<open>message[field]\<close> is read for every field.\<close>

definition detail_cell ::
  "pylib \<Rightarrow> string \<Rightarrow> string \<Rightarrow> pydict \<Rightarrow> string \<times> string \<Rightarrow> exn + string" where
  "detail_cell L tz fmt message fs =
     bind_r (item (map_of message (fst fs)))
       (\<lambda>v. bind_r (if fst fs = ''date_time'' then time_from_iso_format L v fmt tz
                    else Inr (fstr L v))
          (\<lambda>content. Inr (''<td '' @ snd fs @ ''>'' @ content @ ''</td>'')))"

definition detail_row_html ::
  "pylib \<Rightarrow> string \<Rightarrow> string \<Rightarrow> pydict \<Rightarrow> exn + string" where
  "detail_row_html L tz fmt message =
     bind_r (mapM_r (detail_cell L tz fmt message) REPORT_DETAILS_FIELDS)
       (\<lambda>cells. Inr (''<tr>'' @ concat cells @ ''</tr>''))"

definition detail_table_html ::
  "pylib \<Rightarrow> (string \<times> string) list \<Rightarrow> string \<Rightarrow> string \<Rightarrow> pyval \<times> pydict list
     \<Rightarrow> exn + string" where
  "detail_table_html L translations tz fmt entry =
     bind_r (mapM_r (detail_row_html L tz fmt) (snd entry))
       (\<lambda>rows. Inr (''<h4>'' @ status_label L translations (fst entry) @ '':</h4>'' @
                    ''<table><tr>'' @
                    concat (map (\<lambda>fs. ''<th>'' @ status_label L translations (PStr (fst fs)) @
                                      ''</th>'') REPORT_DETAILS_FIELDS) @
                    ''</tr>'' @ concat rows @ ''</table>''))"

definition gen_bounce_data_html :: "pylib \<Rightarrow> config \<Rightarrow> string \<Rightarrow> details \<Rightarrow> exn + string" where
  "gen_bounce_data_html L cfg subaccount_time_format message_details =
     (let translations = get_or (status_translations cfg) [];
          tz = get_or (timezone (get_global_settings cfg)) ''Europe/Amsterdam''
      in bind_r (mapM_r (detail_table_html L translations tz subaccount_time_format)
                   message_details)
           (\<lambda>tables. Inr (if concat tables = [] then ''undefined'' else concat tables)))"

section \<open>send_report\<close>

text \<open>Lines 192 and 196: both formats read the key \<^verbatim>\<open>time_format\<close>.\<close>

definition report_time_format :: "global_settings \<Rightarrow> string" where
  "report_time_format gs = get_or (g_time_format gs) ''%Y-%m-%d %H:%M:%S''"

definition subject_date_format :: "global_settings \<Rightarrow> string" where
  "subject_date_format gs = get_or (g_time_format gs) ''%Y-%m-%d''"

text \<open>Lines 176 to 182: the subaccount's own flag, else its profile's, else false.\<close>

definition skip_flag :: "bool option \<Rightarrow> bool option \<Rightarrow> bool" where
  "skip_flag own of_profile = get_or own (get_or of_profile False)"

definition recipient_entry :: "recipient \<Rightarrow> exn + pyval" where
  "recipient_entry r =
     bind_r (item (to_email r)) (\<lambda>e.
     bind_r (item (to_name r)) (\<lambda>n.
     Inr (PDict [(''Email'', e), (''Name'', n)])))"

text \<open>Lines 191 to 240, in the order in which Python evaluates them.\<close>

definition message_body ::
  "pylib \<Rightarrow> config \<Rightarrow> subaccount \<Rightarrow> profile \<Rightarrow> stats \<Rightarrow> details \<Rightarrow> pyval \<Rightarrow> int
     \<Rightarrow> exn + pyval" where
  "message_body L cfg sub pd message_stats message_details last_ts current_ts =
     (let gs = get_global_settings cfg;
          translations = get_or (status_translations cfg) [];
          tz = get_or (timezone gs) ''Europe/Amsterdam'';
          subaccount_time_format = get_or (p_time_format pd) (report_time_format gs);
          delivery_stats_html =
            (if message_stats = [] then get_or (map_of translations ''no_data'') ''No data''
             else gen_message_stats_html L cfg message_stats)
      in bind_r (strftime_ts L (PInt current_ts) tz (subject_date_format gs)) (\<lambda>subject_date.
         bind_r (item (subject pd)) (\<lambda>subject_template.
         bind_r (item (name sub)) (\<lambda>nm.
         bind_r (str_format L subject_template nm subject_date) (\<lambda>subj.
         bind_r (item (from_email pd)) (\<lambda>f_email.
         bind_r (item (from_name pd)) (\<lambda>f_name.
         bind_r (item (recipients sub)) (\<lambda>rcps.
         bind_r (mapM_r recipient_entry rcps) (\<lambda>tos.
         bind_r (item (template_id pd)) (\<lambda>tid.
         bind_r (gen_bounce_data_html L cfg subaccount_time_format message_details) (\<lambda>bounce.
         bind_r (time_from_timestamp L last_ts (report_time_format gs) tz) (\<lambda>rep_start.
         bind_r (time_from_timestamp L (PInt current_ts) (report_time_format gs) tz) (\<lambda>rep_end.
         Inr (PDict [(''Messages'', PList [PDict
                [(''From'', PDict [(''Email'', f_email), (''Name'', f_name)]),
                 (''To'', PList tos),
                 (''TemplateID'', tid),
                 (''TemplateLanguage'', PBool True),
                 (''Subject'', PStr subj),
                 (''Variables'', PDict
                    [(''delivery_stats'', PStr delivery_stats_html),
                     (''bounce_data'', PStr bounce),
                     (''rep_start'', PStr rep_start),
                     (''rep_end'', PStr rep_end),
                     (''sub_account'', PStr nm)])]])]))))))))))))))"

definition send_report ::
  "pylib \<Rightarrow> world \<Rightarrow> config \<Rightarrow> subaccount \<Rightarrow> stats \<Rightarrow> details \<Rightarrow> pyval \<Rightarrow> int \<Rightarrow> auth
     \<Rightarrow> event list \<times> (exn + bool)" where
  "send_report L w cfg sub message_stats message_details last_ts current_ts au =
     (case profile_details sub of
        None \<Rightarrow> ([], Inl KeyError)
      | Some pd \<Rightarrow>
          if skip_flag (skip_if_no_details sub) (p_skip_if_no_details pd) \<and> message_details = []
             \<or> skip_flag (skip_if_no_data sub) (p_skip_if_no_data pd) \<and> message_stats = []
          then ([], Inr False)
          else
            (case message_body L cfg sub pd message_stats message_details last_ts current_ts of
               Inl e \<Rightarrow> ([], Inl e)
             | Inr body \<Rightarrow>
                 (case http_post w MAILJET_MAIL_SEND_API au body of
                    TransportFailure \<Rightarrow>
                      ([Post MAILJET_MAIL_SEND_API au body,
                        Log ERROR ''Error fetching count from API %s: %s''], Inr False)
                  | Reply status_code content \<Rightarrow>
                      if status_code \<noteq> 200
                      then ([Post MAILJET_MAIL_SEND_API au body,
                             Log ERROR ''Error sending report for subaccount %s: %s''],
                            Inr False)
                      else ([Post MAILJET_MAIL_SEND_API au body], Inr True))))"

section \<open>get_subaccount_data\<close>

record credential =
  cred_id :: pyval
  api_id :: pyval
  api_secret :: pyval

text \<open>One entry of the dictionary comprehension of lines 86 to 93.\<close>

definition credential_entry :: "pyval \<Rightarrow> exn + (pyval \<times> credential)" where
  "credential_entry sa =
     bind_r (subscript sa ''Name'') (\<lambda>nm.
     bind_r (subscript sa ''ID'') (\<lambda>i.
     bind_r (subscript sa ''APIKey'') (\<lambda>k.
     bind_r (subscript sa ''SecretKey'') (\<lambda>s.
     if hashable nm then Inr (nm, \<lparr>cred_id = i, api_id = k, api_secret = s\<rparr>)
     else Inl TypeError))))"

definition get_subaccount_data ::
  "world \<Rightarrow> auth \<Rightarrow> (event list \<times> (exn + (pyval \<times> credential) list option)) option" where
  "get_subaccount_data w au =
     (case get_mailjet_data_list w MAILJET_APIKEY_API au None of
        None \<Rightarrow> None
      | Some (tr, Inl e) \<Rightarrow> Some (tr, Inl e)
      | Some (tr, Inr None) \<Rightarrow>
          Some (tr @ [Log ERROR ''Error fetching subaccount data''], Inr None)
      | Some (tr, Inr (Some subaccount_api_data)) \<Rightarrow>
          Some (tr, bind_r (mapM_r credential_entry subaccount_api_data)
                      (\<lambda>entries. Inr (Some (foldl (\<lambda>d kv. kd_set d (fst kv) (snd kv)) []
                                               entries)))))"

section \<open>main: validation\<close>

text \<open>Lines 314 to 335, for one profile.\<close>

definition validate_profile :: "profile \<Rightarrow> event list \<times> profile" where
  "validate_profile p =
     (if template_id p = None
      then ([Log ERROR ''Profile %s does not have a template_id, skipping''], p)
      else if subject p = None
      then ([Log ERROR ''Profile %s does not have a subject set, skipping''], p)
      else if from_email p = None
      then ([Log ERROR ''Profile %s does not have a from_email, skipping''], p)
      else if from_name p = None
      then ([Log ERROR ''Profile %s does not have a from_name, skipping''], p)
      else ([], p\<lparr>p_valid := Some True\<rparr>))"

definition validate_profiles ::
  "(string \<times> profile) list \<Rightarrow> event list \<times> (string \<times> profile) list" where
  "validate_profiles ps =
     (concat (map (\<lambda>np. fst (validate_profile (snd np))) ps),
      map (\<lambda>np. (fst np, snd (validate_profile (snd np)))) ps)"

text \<open>
  Lines 343 to 390, for one subaccount. The profile and the report days are stored
  before the recipients are looked at; every recipient without \<^verbatim>\<open>to_email\<close> or
  \<^verbatim>\<open>to_name\<close> is logged, and one of them makes the subaccount invalid.
\<close>

definition validate_subaccount ::
  "(string \<times> profile) list \<Rightarrow> string \<Rightarrow> subaccount \<Rightarrow> event list \<times> subaccount" where
  "validate_subaccount profs report_days_default sa =
     (if name sa = None
      then ([Log ERROR ''Subaccount name not found in subaccount report config, skipping''],
            sa)
      else (case profile sa of
        None \<Rightarrow>
          ([Log ERROR ''Subaccount '%s' does not have a profile assigned, skipping''], sa)
      | Some pn \<Rightarrow>
          (case map_of profs pn of
             None \<Rightarrow>
               ([Log ERROR
                   ''Assigned profile '%s' for subaccount '%s' does not exist, skipping''],
                sa)
           | Some p \<Rightarrow>
               if \<not> get_or (p_valid p) False
               then ([Log ERROR ''Subaccount type %s not found in profiles, skipping''], sa)
               else
                 let sa' = sa\<lparr>profile_details := Some p,
                              report_days := Some (get_or (report_days sa) report_days_default)\<rparr>
                 in (case recipients sa' of
                      None \<Rightarrow>
                        ([Log ERROR ''Subaccount %s does not have recipients, skipping''], sa')
                    | Some rs \<Rightarrow>
                        let invalid = filter (\<lambda>r. to_email r = None \<or> to_name r = None) rs
                        in if invalid \<noteq> []
                           then (map (\<lambda>r. Log ERROR
                                   ''Subaccount %s recipients has not defined to_email or to_name correctly, skipping'')
                                   invalid,
                                 sa')
                           else ([], sa'\<lparr>valid := Some True\<rparr>)))))"

definition validate_subaccounts ::
  "(string \<times> profile) list \<Rightarrow> string \<Rightarrow> subaccount list \<Rightarrow> event list \<times> subaccount list" where
  "validate_subaccounts profs report_days_default sas =
     (concat (map (\<lambda>sa. fst (validate_subaccount profs report_days_default sa)) sas),
      map (\<lambda>sa. snd (validate_subaccount profs report_days_default sa)) sas)"

section \<open>main: the processing loop\<close>

text \<open>\<^verbatim>\<open>state.get(key, default)\<close> and \<^verbatim>\<open>state[key] = value\<close> on what
  \<^verbatim>\<open>json.load\<close> returned for the state file.\<close>

fun state_get :: "pyval \<Rightarrow> string \<Rightarrow> pyval \<Rightarrow> exn + pyval" where
  "state_get (PDict d) k dflt = Inr (get_or (map_of d k) dflt)"
| "state_get _ k dflt = Inl AttributeError"

fun state_set :: "pyval \<Rightarrow> string \<Rightarrow> pyval \<Rightarrow> exn + pyval" where
  "state_set (PDict d) k v = Inr (PDict (dict_set d k v))"
| "state_set _ k v = Inl TypeError"

text \<open>
  What one pass of the loop of lines 399 to 467 ends with: a \<^verbatim>\<open>continue\<close> before
  \<^verbatim>\<open>send_report\<close> is called, or the value \<^verbatim>\<open>send_report\<close> returned for the
  subaccount id.
\<close>

datatype cycle = Skipped | Dispatched string bool

type_synonym 'a run = "(event list \<times> (exn + 'a)) option"

text \<open>Lines 400 to 467.\<close>

definition report_cycle ::
  "pylib \<Rightarrow> world \<Rightarrow> config \<Rightarrow> (string \<times> profile) list \<Rightarrow> (pyval \<times> credential) list
     \<Rightarrow> auth \<Rightarrow> char \<Rightarrow> int \<Rightarrow> int \<Rightarrow> pyval \<Rightarrow> subaccount \<Rightarrow> cycle run" where
  "report_cycle L w cfg profs subaccount_data master_auth day_of_week current_ts
       default_last_ts state sa =
     (if \<not> get_or (valid sa) False
      then (case name sa of
              None \<Rightarrow> Some ([], Inl KeyError)
            | Some nm \<Rightarrow> Some ([Log WARNING ''Subaccount %s not valid, skipping''], Inr Skipped))
      else (case report_days sa of
        None \<Rightarrow> Some ([], Inl KeyError)
      | Some days \<Rightarrow>
          if day_of_week \<notin> set days
          then (case name sa of
                  None \<Rightarrow> Some ([], Inl KeyError)
                | Some nm \<Rightarrow>
                    Some ([Log DEBUG
                             ''Subaccount report %s not scheduled to report today, skipping''],
                          Inr Skipped))
          else (case name sa of
            None \<Rightarrow> Some ([], Inl KeyError)
          | Some nm \<Rightarrow>
              (case kd_get subaccount_data (PStr nm) of
                 None \<Rightarrow>
                   Some ([Log ERROR ''Subaccount %s not found in Mailjet, skipping''],
                         Inr Skipped)
               | Some cred \<Rightarrow>
                   let subaccount_id = str_of L (cred_id cred);
                       au = (api_id cred, api_secret cred)
                   in (case state_get state subaccount_id (PInt default_last_ts) of
                        Inl e \<Rightarrow> Some ([], Inl e)
                      | Inr last_ts \<Rightarrow>
                          (case bind_r (item (profile sa)) (\<lambda>pn. item (map_of profs pn)) of
                             Inl e \<Rightarrow> Some ([], Inl e)
                           | Inr p \<Rightarrow>
                               let report_details_fields = get_or (report_in_detail p) []
                               in (case get_mailjet_data_list w MAILJET_MESSAGE_API au
                                         (Some [(''FromTS'', last_ts),
                                                (''ToTS'', PInt current_ts),
                                                (''ShowSubject'', PBool True),
                                                (''ShowContactAlt'', PBool True)]) of
                                    None \<Rightarrow> None
                                  | Some (tr, Inl e) \<Rightarrow> Some (tr, Inl e)
                                  | Some (tr, Inr None) \<Rightarrow>
                                      Some (tr @ [Log ERROR
                                        ''Error fetching message data for subaccount %s, skipping''],
                                            Inr Skipped)
                                  | Some (tr, Inr (Some subaccount_message_data)) \<Rightarrow>
                                      (case process_messages report_details_fields ([], [])
                                              subaccount_message_data of
                                         Inl e \<Rightarrow> Some (tr, Inl e)
                                       | Inr agg \<Rightarrow>
                                           (case send_report L w cfg sa (fst agg) (snd agg)
                                                   last_ts current_ts master_auth of
                                              (tr2, Inl e) \<Rightarrow> Some (tr @ tr2, Inl e)
                                            | (tr2, Inr sent) \<Rightarrow>
                                                Some (tr @ tr2,
                                                      Inr (Dispatched subaccount_id sent)))))))))))"

text \<open>One pass of the loop, with line 470: the watermark is stored only after
  \<^verbatim>\<open>send_report\<close> returned true.\<close>

definition process_subaccount ::
  "pylib \<Rightarrow> world \<Rightarrow> config \<Rightarrow> (string \<times> profile) list \<Rightarrow> (pyval \<times> credential) list
     \<Rightarrow> auth \<Rightarrow> char \<Rightarrow> int \<Rightarrow> int \<Rightarrow> pyval \<Rightarrow> subaccount \<Rightarrow> pyval run" where
  "process_subaccount L w cfg profs subaccount_data master_auth day_of_week current_ts
       default_last_ts state sa =
     (case report_cycle L w cfg profs subaccount_data master_auth day_of_week current_ts
             default_last_ts state sa of
        None \<Rightarrow> None
      | Some (tr, Inl e) \<Rightarrow> Some (tr, Inl e)
      | Some (tr, Inr Skipped) \<Rightarrow> Some (tr, Inr state)
      | Some (tr, Inr (Dispatched subaccount_id sent)) \<Rightarrow>
          if \<not> sent then Some (tr, Inr state)
          else Some (tr, state_set state subaccount_id (PInt current_ts)))"

fun process_subaccounts ::
  "pylib \<Rightarrow> world \<Rightarrow> config \<Rightarrow> (string \<times> profile) list \<Rightarrow> (pyval \<times> credential) list
     \<Rightarrow> auth \<Rightarrow> char \<Rightarrow> int \<Rightarrow> int \<Rightarrow> pyval \<Rightarrow> subaccount list \<Rightarrow> pyval run" where
  "process_subaccounts L w cfg profs sd ma day now dflt state [] = Some ([], Inr state)"
| "process_subaccounts L w cfg profs sd ma day now dflt state (sa # sas) =
     (case process_subaccount L w cfg profs sd ma day now dflt state sa of
        None \<Rightarrow> None
      | Some (tr, Inl e) \<Rightarrow> Some (tr, Inl e)
      | Some (tr, Inr state') \<Rightarrow>
          (case process_subaccounts L w cfg profs sd ma day now dflt state' sas of
             None \<Rightarrow> None
           | Some (tr', r) \<Rightarrow> Some (tr @ tr', r)))"

section \<open>main\<close>

record environ =
  MAILJET_APP_ID :: "string option"
  MAILJET_APP_SECRET :: "string option"
  CONFIG_FILE :: "string option"
  SYNC_STATE :: "string option"

text \<open>
  A file is missing or has content. The content of the configuration file is what
  \<^verbatim>\<open>yaml.safe_load\<close> returns for it (\<open>None\<close> for an empty document); the
  content of the state file is what \<^verbatim>\<open>json.load\<close> returns, or \<open>None\<close> where it
  raises \<^verbatim>\<open>JSONDecodeError\<close>, as it does on a file of no bytes.
\<close>

datatype 'a file_read = FileNotFound | FileContent 'a

datatype outcome = Returned | Exited int | Raised exn

text \<open>Lines 472 to 477.\<close>

definition write_state :: "pyval \<Rightarrow> event list" where
  "write_state state = [StateOpenW, StateDump state, StateFlush, StateFsync, StateClose]"

text \<open>Lines 293 to 304: the events, and the state if the block does not raise.\<close>

definition load_state :: "pyval option file_read \<Rightarrow> event list \<times> (exn + pyval)" where
  "load_state state_file =
     (case state_file of
        FileNotFound \<Rightarrow>
          ([Log DEBUG ''State file %s not found, creating initial file''], Inr (PDict []))
      | FileContent None \<Rightarrow> ([], Inl JSONDecodeError)
      | FileContent (Some state) \<Rightarrow>
          (if state = PNone
           then [Log INFO ''State file is empty, reporting over the last %s days'']
           else [],
           Inr state))"

definition main ::
  "pylib \<Rightarrow> world \<Rightarrow> environ \<Rightarrow> config option file_read \<Rightarrow> pyval option file_read \<Rightarrow> char \<Rightarrow> int
     \<Rightarrow> (event list \<times> outcome) option" where
  "main L w env config_file state_file day_of_week current_ts =
     (case (MAILJET_APP_ID env, MAILJET_APP_SECRET env) of
        (Some app_id, Some app_secret) \<Rightarrow>
          if CONFIG_FILE env = None \<or> SYNC_STATE env = None
          then Some ([Log ERROR ''CONFIG_FILE or SYNC_STATE is not set''], Exited 1)
          else
            (case config_file of
               FileNotFound \<Rightarrow>
                 Some ([Log ERROR ''Config file %s not found, aborting''], Exited 1)
             | FileContent None \<Rightarrow>
                 Some ([Log ERROR ''Config file is empty, aborting''], Exited 1)
             | FileContent (Some cfg) \<Rightarrow>
                 let gs = get_global_settings cfg;
                     report_days_default = get_or (g_report_days gs) ''01234'';
                     max_days = get_or (default_max_report_days gs) 1
                 in (case load_state state_file of
                      (tr0, Inl e) \<Rightarrow> Some (tr0, Raised e)
                    | (tr0, Inr state) \<Rightarrow>
                        if get_or (profiles cfg) [] = []
                        then Some (tr0 @ [Log ERROR ''No profiles found in config file''],
                                   Exited 1)
                        else
                          let default_last_ts = current_ts - 86400 * max_days;
                              vp = validate_profiles (get_or (profiles cfg) []);
                              tr1 = tr0 @ fst vp;
                              profs = snd vp
                          in (if get_or (subaccount_reports cfg) [] = []
                             then Some (tr1 @ [Log INFO
                                   ''No subaccount reports found in config file, nothing to report''],
                                        Exited 1)
                             else
                               let vs = validate_subaccounts profs report_days_default
                                          (get_or (subaccount_reports cfg) []);
                                   tr2 = tr1 @ fst vs;
                                   master_auth = (PStr app_id, PStr app_secret)
                               in (case get_subaccount_data w master_auth of
                                    None \<Rightarrow> None
                                  | Some (tr3, Inl e) \<Rightarrow> Some (tr2 @ tr3, Raised e)
                                  | Some (tr3, Inr None) \<Rightarrow>
                                      Some (tr2 @ tr3 @
                                              [Log ERROR ''Error fetching subaccounts, aborting''],
                                            Exited 1)
                                  | Some (tr3, Inr (Some subaccount_data)) \<Rightarrow>
                                      (case process_subaccounts L w cfg profs subaccount_data
                                              master_auth day_of_week current_ts
                                              default_last_ts state (snd vs) of
                                         None \<Rightarrow> None
                                       | Some (tr4, Inl e) \<Rightarrow> Some (tr2 @ tr3 @ tr4, Raised e)
                                       | Some (tr4, Inr state') \<Rightarrow>
                                           Some (tr2 @ tr3 @ tr4 @ write_state state',
                                                 Returned))))))
      | _ \<Rightarrow> Some ([Log ERROR ''MAILJET_APP_ID or MAILJET_APP_SECRET is not set''],
                   Exited 1))"

section \<open>Notions used to state the properties\<close>

subsection \<open>A provider that serves a record list in pages\<close>

text \<open>
  \<open>answers r k v\<close>: the request was answered with a JSON object whose key \<open>k\<close>
  holds \<open>v\<close>. \<open>serves w a au params rs\<close>: the count probe reports the length of
  \<open>rs\<close>, and the page at offset \<open>200 * k\<close> holds the next records of \<open>rs\<close>, at
  most 200 of them, with their number as its count.
\<close>

definition answers :: "response \<Rightarrow> string \<Rightarrow> pyval \<Rightarrow> bool" where
  "answers r k v = (case r of Reply sc (Some body) \<Rightarrow> subscript body k = Inr v | _ \<Rightarrow> False)"

definition page_count :: "nat \<Rightarrow> nat" where
  "page_count n = max 1 ((n + 199) div 200)"

definition page_query :: "pydict \<Rightarrow> nat \<Rightarrow> pydict" where
  "page_query params k =
     dict_or [(''Limit'', PInt 200), (''Offset'', PInt (200 * int k))] params"

definition serves :: "world \<Rightarrow> api \<Rightarrow> auth \<Rightarrow> pydict \<Rightarrow> pyval list \<Rightarrow> bool" where
  "serves w a au params rs \<longleftrightarrow>
     answers (http_get w a au (dict_or [(''countOnly'', PInt 1)] params)) ''Count''
       (PInt (int (length rs))) \<and>
     list_all
       (\<lambda>k. answers (http_get w a au (page_query params k)) ''Count''
               (PInt (int (length (take 200 (drop (200 * k) rs))))) \<and>
            answers (http_get w a au (page_query params k)) ''Data''
               (PList (take 200 (drop (200 * k) rs))))
       [0..<page_count (length rs)]"

definition paged_provider :: "pyval list \<Rightarrow> world" where
  "paged_provider rs =
     \<lparr>http_get = (\<lambda>a au q.
        if map_of q ''countOnly'' \<noteq> None
        then Reply 200 (Some (PDict [(''Count'', PInt (int (length rs)))]))
        else (case map_of q ''Offset'' of
                Some (PInt off) \<Rightarrow>
                  Reply 200 (Some (PDict
                    [(''Count'', PInt (int (length (take 200 (drop (nat off) rs))))),
                     (''Data'', PList (take 200 (drop (nat off) rs)))]))
              | _ \<Rightarrow> Reply 400 None)),
      http_post = (\<lambda>a au body. Reply 200 None)\<rparr>"

subsection \<open>Records and their statuses\<close>

text \<open>
  \<open>has_status m\<close>: the record is an object with a \<^verbatim>\<open>Status\<close> that can be a
  dictionary key. \<open>with_status k ms\<close>: the records of \<open>ms\<close> whose status equals
  \<open>k\<close> as Python compares keys.
\<close>

definition has_status :: "pyval \<Rightarrow> bool" where
  "has_status m = (case subscript m ''Status'' of Inr s \<Rightarrow> hashable s | Inl e \<Rightarrow> False)"

definition status_is :: "pyval \<Rightarrow> pyval \<Rightarrow> bool" where
  "status_is k m =
     (case subscript m ''Status'' of Inr s \<Rightarrow> key_norm s = key_norm k | Inl e \<Rightarrow> False)"

definition with_status :: "pyval \<Rightarrow> pyval list \<Rightarrow> pyval list" where
  "with_status k ms = filter (status_is k) ms"

subsection \<open>Detail rows that cannot be rendered\<close>

text \<open>
  \<open>row_complete row\<close>: the row has every key of \<^verbatim>\<open>REPORT_DETAILS_FIELDS\<close>.
  \<open>dates_ok L tz fmt message_details\<close>: every \<^verbatim>\<open>date_time\<close> that a row has
  is one the library formats without raising.
\<close>

definition row_complete :: "pydict \<Rightarrow> bool" where
  "row_complete row = list_all (\<lambda>fs. map_of row (fst fs) \<noteq> None) REPORT_DETAILS_FIELDS"

definition rows_complete :: "details \<Rightarrow> bool" where
  "rows_complete message_details =
     list_all (\<lambda>entry. list_all row_complete (snd entry)) message_details"

definition date_ok :: "pylib \<Rightarrow> string \<Rightarrow> string \<Rightarrow> pydict \<Rightarrow> bool" where
  "date_ok L tz fmt row =
     (case map_of row ''date_time'' of
        None \<Rightarrow> True
      | Some v \<Rightarrow> (case strftime_iso L v tz fmt of Inr s \<Rightarrow> True | Inl e \<Rightarrow> False))"

definition dates_ok :: "pylib \<Rightarrow> string \<Rightarrow> string \<Rightarrow> details \<Rightarrow> bool" where
  "dates_ok L tz fmt message_details =
     list_all (\<lambda>entry. list_all (date_ok L tz fmt) (snd entry)) message_details"

subsection \<open>The fields of an outbound message\<close>

text \<open>Field \<open>k\<close> of the one message of a request body, and variable \<open>k\<close> of it.\<close>

definition outbound :: "pyval \<Rightarrow> string \<Rightarrow> exn + pyval" where
  "outbound body k =
     bind_r (subscript body ''Messages'')
       (\<lambda>ms. case ms of PList [m] \<Rightarrow> subscript m k | _ \<Rightarrow> Inl TypeError)"

definition variable :: "pyval \<Rightarrow> string \<Rightarrow> exn + pyval" where
  "variable body k = bind_r (outbound body ''Variables'') (\<lambda>v. subscript v k)"

subsection \<open>Date-only formats\<close>

text \<open>
  A \<^verbatim>\<open>strftime\<close> format is date-only when none of its directives prints a time of
  day or a zone.
\<close>

fun directives :: "string \<Rightarrow> char list" where
  "directives (c # d # s) = (if c = CHR ''%'' then d # directives s else directives (d # s))"
| "directives s = []"

definition date_only :: "string \<Rightarrow> bool" where
  "date_only fmt = (set (directives fmt) \<inter> set ''HIMSpfzZXcTRr'' = {})"

subsection \<open>The watermarks a run commits\<close>

text \<open>
  The subaccount ids for which \<^verbatim>\<open>send_report\<close> returned true during the loop over
  the subaccounts, the loop being followed pass by pass.
\<close>

fun dispatched_ids ::
  "pylib \<Rightarrow> world \<Rightarrow> config \<Rightarrow> (string \<times> profile) list \<Rightarrow> (pyval \<times> credential) list
     \<Rightarrow> auth \<Rightarrow> char \<Rightarrow> int \<Rightarrow> int \<Rightarrow> pyval \<Rightarrow> subaccount list \<Rightarrow> string list" where
  "dispatched_ids L w cfg profs sd ma day now dflt state [] = []"
| "dispatched_ids L w cfg profs sd ma day now dflt state (sa # sas) =
     (case report_cycle L w cfg profs sd ma day now dflt state sa of
        Some (tr, Inr (Dispatched sid True)) \<Rightarrow>
          (case state_set state sid (PInt now) of
             Inr state' \<Rightarrow> sid # dispatched_ids L w cfg profs sd ma day now dflt state' sas
           | Inl e \<Rightarrow> [sid])
      | Some (tr, Inr c) \<Rightarrow> dispatched_ids L w cfg profs sd ma day now dflt state sas
      | _ \<Rightarrow> [])"

text \<open>
  The same ids for a whole run: the loop as \<^verbatim>\<open>main\<close> enters it, over the validated
  subaccounts, with the credentials the provider lists and the state the run loaded.
\<close>

definition run_dispatched_ids ::
  "pylib \<Rightarrow> world \<Rightarrow> environ \<Rightarrow> config \<Rightarrow> pyval \<Rightarrow> char \<Rightarrow> int \<Rightarrow> string list" where
  "run_dispatched_ids L w env cfg state day now =
     (case (MAILJET_APP_ID env, MAILJET_APP_SECRET env) of
        (Some app_id, Some app_secret) \<Rightarrow>
          (case get_subaccount_data w (PStr app_id, PStr app_secret) of
             Some (tr, Inr (Some sd)) \<Rightarrow>
               dispatched_ids L w cfg (snd (validate_profiles (get_or (profiles cfg) []))) sd
                 (PStr app_id, PStr app_secret) day now
                 (now - 86400 * get_or (default_max_report_days (get_global_settings cfg)) 1)
                 state
                 (snd (validate_subaccounts (snd (validate_profiles (get_or (profiles cfg) [])))
                         (get_or (g_report_days (get_global_settings cfg)) ''01234'')
                         (get_or (subaccount_reports cfg) [])))
           | _ \<Rightarrow> [])
      | _ \<Rightarrow> [])"

text \<open>The watermark of a subaccount id in a state, when it is an integer.\<close>

definition watermark :: "pyval \<Rightarrow> string \<Rightarrow> int option" where
  "watermark state sid =
     (case state of
        PDict d \<Rightarrow> (case map_of d sid of Some (PInt t) \<Rightarrow> Some t | _ \<Rightarrow> None)
      | _ \<Rightarrow> None)"

subsection \<open>The state file on disk\<close>

text \<open>
  What a run's events do to the state file. Opening it for writing truncates it; the
  dump goes to the buffer of the file object; the flush moves the buffer to the file;
  \<^verbatim>\<open>fsync\<close> and closing add no content. An interruption after some events of a
  run leaves the file as those events made it.
\<close>

datatype disk = Intact | Truncated | Holds pyval

fun disk_step :: "disk \<times> pyval option \<Rightarrow> event \<Rightarrow> disk \<times> pyval option" where
  "disk_step (d, b) StateOpenW = (Truncated, None)"
| "disk_step (d, b) (StateDump v) = (d, Some v)"
| "disk_step (d, b) StateFlush = (case b of None \<Rightarrow> (d, None) | Some v \<Rightarrow> (Holds v, None))"
| "disk_step (d, b) e = (d, b)"

definition disk_after :: "event list \<Rightarrow> disk" where
  "disk_after evs = fst (foldl disk_step (Intact, None) evs)"

fun is_state_event :: "event \<Rightarrow> bool" where
  "is_state_event (Get a au q) = False"
| "is_state_event (Post a au b) = False"
| "is_state_event (Log l s) = False"
| "is_state_event e = True"

definition no_state_events :: "event list \<Rightarrow> bool" where
  "no_state_events evs = list_all (\<lambda>e. \<not> is_state_event e) evs"

text \<open>
  A write is atomic when an interruption at any point leaves either the prior file or
  the complete new one.
\<close>

definition atomic_write :: "event list \<Rightarrow> bool" where
  "atomic_write evs =
     list_all (\<lambda>k. disk_after (take k evs) = Intact \<or> disk_after (take k evs) = disk_after evs)
       [0..<Suc (length evs)]"

definition run_events :: "(event list \<times> outcome) option \<Rightarrow> event list" where
  "run_events r = (case r of None \<Rightarrow> [] | Some eo \<Rightarrow> fst eo)"

definition run_outcome :: "(event list \<times> outcome) option \<Rightarrow> outcome option" where
  "run_outcome r = map_option snd r"

definition dumped :: "event list \<Rightarrow> pyval list" where
  "dumped evs = concat (map (\<lambda>e. case e of StateDump s \<Rightarrow> [s] | _ \<Rightarrow> []) evs)"

subsection \<open>Concrete inputs\<close>

text \<open>
  A library that agrees with Python on what the runs below pass to it: a format without
  directives is rendered as it stands, a template without braces likewise, and
  \<^verbatim>\<open>str(7)\<close> is \<^verbatim>\<open>"7"\<close>. Anything else is refused.
\<close>

definition plain_lib :: pylib where
  "plain_lib =
     \<lparr>strftime_ts = (\<lambda>ts tz fmt.
        if CHR ''%'' \<in> set fmt then Inl (LibraryError ''strftime'') else Inr fmt),
      strftime_iso = (\<lambda>s tz fmt.
        if CHR ''%'' \<in> set fmt then Inl (LibraryError ''strftime'') else Inr fmt),
      str_format = (\<lambda>t a b.
        if CHR ''{'' \<in> set t \<or> CHR ''}'' \<in> set t then Inl (LibraryError ''format'')
        else Inr t),
      str_of = (\<lambda>v. if v = PInt 7 then ''7'' else ''?'')\<rparr>"

text \<open>
  A provider with one subaccount, \<^verbatim>\<open>acme\<close> with id 7, no messages in any window,
  and a send endpoint that accepts every message.
\<close>

definition acme_provider :: world where
  "acme_provider =
     \<lparr>http_get = (\<lambda>a au q.
        if a = MAILJET_APIKEY_API
        then (if map_of q ''countOnly'' \<noteq> None
              then Reply 200 (Some (PDict [(''Count'', PInt 1)]))
              else Reply 200 (Some (PDict
                     [(''Count'', PInt 1),
                      (''Data'', PList [PDict [(''Name'', PStr ''acme''), (''ID'', PInt 7),
                                               (''APIKey'', PStr ''key''),
                                               (''SecretKey'', PStr ''secret'')]])])))
        else (if map_of q ''countOnly'' \<noteq> None
              then Reply 200 (Some (PDict [(''Count'', PInt 0)]))
              else Reply 200 (Some (PDict [(''Count'', PInt 0), (''Data'', PList [])])))),
      http_post = (\<lambda>a au body. Reply 200 None)\<rparr>"

text \<open>The same provider with a send endpoint that answers every message with status 500.\<close>

definition rejecting_provider :: world where
  "rejecting_provider = acme_provider\<lparr>http_post := (\<lambda>a au body. Reply 500 None)\<rparr>"

text \<open>A provider whose count probe succeeds and whose page requests time out.\<close>

definition flaky_provider :: world where
  "flaky_provider =
     \<lparr>http_get = (\<lambda>a au q.
        if map_of q ''countOnly'' \<noteq> None
        then Reply 200 (Some (PDict [(''Count'', PInt 1)]))
        else TransportFailure),
      http_post = (\<lambda>a au body. TransportFailure)\<rparr>"

definition std_profile :: profile where
  "std_profile =
     \<lparr>template_id = Some (PInt 1), subject = Some ''Mail report'',
      from_email = Some (PStr ''reports@example.org''), from_name = Some (PStr ''Reports''),
      p_time_format = None, report_in_detail = None, p_skip_if_no_details = None,
      p_skip_if_no_data = None, p_valid = None\<rparr>"

definition acme :: subaccount where
  "acme =
     \<lparr>name = Some ''acme'', profile = Some ''std'', report_days = None,
      recipients = Some [\<lparr>to_email = Some (PStr ''ops@example.org''),
                          to_name = Some (PStr ''Ops'')\<rparr>],
      skip_if_no_details = None, skip_if_no_data = None, profile_details = None,
      valid = None\<rparr>"

definition acme_config :: "subaccount list \<Rightarrow> config" where
  "acme_config subs =
     \<lparr>global_settings = Some \<lparr>timezone = None, g_time_format = Some ''today'',
                               g_report_days = None, default_max_report_days = None\<rparr>,
      status_translations = None,
      profiles = Some [(''std'', std_profile)],
      subaccount_reports = Some subs\<rparr>"

text \<open>450 records, told apart by their ids.\<close>

definition sample_records :: "pyval list" where
  "sample_records = map (\<lambda>i. PDict [(''ID'', PInt (int i))]) [0..<450]"

text \<open>
  A provider that announces 450 records to the count probe and then has 250 to hand
  out: 200 at offset 0 and the remaining 50, a page that is not full, at offset 200.
\<close>

definition short_page_records :: "pyval list" where
  "short_page_records = map (\<lambda>i. PDict [(''ID'', PInt (int i))]) [0..<250]"

definition short_page_provider :: world where
  "short_page_provider =
     \<lparr>http_get = (\<lambda>a au q.
        if map_of q ''countOnly'' \<noteq> None
        then Reply 200 (Some (PDict [(''Count'', PInt 450)]))
        else (case map_of q ''Offset'' of
                Some (PInt off) \<Rightarrow>
                  Reply 200 (Some (PDict
                    [(''Count'',
                      PInt (int (length (take 200 (drop (nat off) short_page_records))))),
                     (''Data'', PList (take 200 (drop (nat off) short_page_records)))]))
              | _ \<Rightarrow> Reply 400 None)),
      http_post = (\<lambda>a au body. Reply 200 None)\<rparr>"

definition full_environ :: environ where
  "full_environ =
     \<lparr>MAILJET_APP_ID = Some ''id'', MAILJET_APP_SECRET = Some ''secret'',
      CONFIG_FILE = Some ''config.yaml'', SYNC_STATE = Some ''state.json''\<rparr>"

text \<open>
  The message the fixtures above lead to, and the requests of a run over them when the
  state file holds the watermark \<open>t\<close> for subaccount 7 and the clock says 1700000000.
\<close>

definition acme_message :: pyval where
  "acme_message =
     PDict [(''Messages'', PList [PDict
       [(''From'', PDict [(''Email'', PStr ''reports@example.org''), (''Name'', PStr ''Reports'')]),
        (''To'', PList [PDict [(''Email'', PStr ''ops@example.org''), (''Name'', PStr ''Ops'')]]),
        (''TemplateID'', PInt 1),
        (''TemplateLanguage'', PBool True),
        (''Subject'', PStr ''Mail report''),
        (''Variables'', PDict
           [(''delivery_stats'', PStr ''No data''),
            (''bounce_data'', PStr ''undefined''),
            (''rep_start'', PStr ''today''),
            (''rep_end'', PStr ''today''),
            (''sub_account'', PStr ''acme'')])]])]"

definition directory_requests :: "event list" where
  "directory_requests =
     [Get MAILJET_APIKEY_API (PStr ''id'', PStr ''secret'') [(''countOnly'', PInt 1)],
      Get MAILJET_APIKEY_API (PStr ''id'', PStr ''secret'')
        [(''Limit'', PInt 200), (''Offset'', PInt 0)]]"

definition acme_events :: "int \<Rightarrow> event list" where
  "acme_events t =
     directory_requests @
     [Get MAILJET_MESSAGE_API (PStr ''key'', PStr ''secret'')
        [(''countOnly'', PInt 1), (''FromTS'', PInt t), (''ToTS'', PInt 1700000000),
         (''ShowSubject'', PBool True), (''ShowContactAlt'', PBool True)],
      Get MAILJET_MESSAGE_API (PStr ''key'', PStr ''secret'')
        [(''Limit'', PInt 200), (''Offset'', PInt 0), (''FromTS'', PInt t),
         (''ToTS'', PInt 1700000000), (''ShowSubject'', PBool True),
         (''ShowContactAlt'', PBool True)],
      Post MAILJET_MAIL_SEND_API (PStr ''id'', PStr ''secret'') acme_message]"

section \<open>The paginated fetch\<close>

lemmas fetch_defs = get_mailjet_data_list_def count_probe_def page_body_def page_loop.simps
  dict_or_def bind_r_def BATCH_LIMIT_def Let_def

text \<open>The failures the count probe contains, and the one it lets through.\<close>

lemma count_probe_contained:
  "count_probe TransportFailure = Inr None"
  "count_probe (Reply sc None) = Inr None"
  "count_probe (Reply sc (Some (PDict []))) = Inr None"
  "count_probe (Reply sc (Some (PList xs))) = Inl TypeError"
  by (simp_all add: count_probe_def)

text \<open>
  \<^bold>\<open>C2\<close>. The claim: \<^verbatim>\<open>get_mailjet_data_list\<close> returns \<^verbatim>\<open>None\<close>, and lets no
  exception through, whenever the count probe or a later page request fails. The page
  requests of lines 69 to 72 are outside the \<^verbatim>\<open>try\<close> block of the probe. With a
  provider whose probe reports one record and whose page requests fail at the transport
  layer, the call does not return \<^verbatim>\<open>None\<close>: the \<^verbatim>\<open>RequestException\<close> of the
  first page request leaves the function.
\<close>

theorem page_failure_escapes:
  "get_mailjet_data_list flaky_provider MAILJET_MESSAGE_API (PStr ''key'', PStr ''secret'') None =
     Some ([Get MAILJET_MESSAGE_API (PStr ''key'', PStr ''secret'') [(''countOnly'', PInt 1)],
            Get MAILJET_MESSAGE_API (PStr ''key'', PStr ''secret'')
              [(''Limit'', PInt 200), (''Offset'', PInt 0)]],
           Inl RequestException)"
  by (simp add: fetch_defs flaky_provider_def)

text \<open>What one pass of the loop does with a page of \<open>n\<close> records.\<close>

lemma answers_page_body:
  assumes c: "answers r ''Count'' (PInt n)"
    and d: "answers r ''Data'' (PList items)"
  shows "page_body (PInt c) offset data r =
     (if n = 0 \<or> c \<le> offset + n then PageBreak (data @ items)
      else PageNext (offset + n) (data @ items))"
  using c d
  by (auto simp: answers_def page_body_def bind_r_def split: response.splits option.splits)

lemma page_loop_serves:
  assumes s: "serves w a au params rs"
  shows "j < page_count (length rs) \<Longrightarrow>
    page_loop w a au params (PInt (int (length rs))) (200 * int j) (take (200 * j) rs) tr =
      Some (tr @ map (\<lambda>k. Get a au (page_query params k)) [j..<page_count (length rs)], Inr rs)"
proof (induction "page_count (length rs) - j" arbitrary: j tr)
  case 0
  then show ?case by simp
next
  case (Suc d)
  let ?n = "length rs"
  let ?items = "take 200 (drop (200 * j) rs)"
  let ?r = "http_get w a au (page_query params j)"
  from s Suc.prems have c: "answers ?r ''Count'' (PInt (int (length ?items)))"
    and dd: "answers ?r ''Data'' (PList ?items)"
    by (auto simp: serves_def list_all_iff)
  have body: "page_body (PInt (int ?n)) (200 * int j) (take (200 * j) rs) ?r =
     (if ?items = [] \<or> int ?n \<le> 200 * int j + int (length ?items)
      then PageBreak (take (200 * j) rs @ ?items)
      else PageNext (200 * int j + int (length ?items)) (take (200 * j) rs @ ?items))"
  proof -
    have z: "(int (length ?items) = 0) = (?items = [])"
      by (simp only: of_nat_eq_0_iff length_0_conv)
    show ?thesis
      by (rule answers_page_body [OF c dd, of "int ?n" "200 * int j" "take (200 * j) rs",
            unfolded z])
  qed
  have cat: "take (200 * j) rs @ ?items = take (200 * Suc j) rs"
    by (simp add: take_add [symmetric] add.commute)
  show ?case
  proof (cases "?n \<le> 200 * Suc j")
    case True
    with Suc.prems have pc: "page_count ?n = Suc j"
      by (auto simp: page_count_def max_def split: if_splits)
    from True have brk: "?items = [] \<or> int ?n \<le> 200 * int j + int (length ?items)"
      by auto
    from True have all: "take (200 * Suc j) rs = rs" by simp
    show ?thesis
      apply (subst page_loop.simps)
      using body brk all cat pc
      by (simp add: Let_def page_query_def BATCH_LIMIT_def)
  next
    case False
    then have pc: "Suc j < page_count ?n"
      by (auto simp: page_count_def max_def)
    from False have len: "length ?items = 200" by simp
    from False have nbrk: "\<not> (?items = [] \<or> int ?n \<le> 200 * int j + int (length ?items))"
      by auto
    from Suc.hyps(2) have d: "d = page_count ?n - Suc j" by simp
    have IH: "page_loop w a au params (PInt (int ?n)) (200 * int (Suc j)) (take (200 * Suc j) rs)
        (tr @ [Get a au (page_query params j)]) =
      Some ((tr @ [Get a au (page_query params j)]) @
              map (\<lambda>k. Get a au (page_query params k)) [Suc j..<page_count ?n], Inr rs)"
      by (rule Suc.hyps(1) [OF d pc])
    have upt: "[j..<page_count ?n] = j # [Suc j..<page_count ?n]"
      using pc by (simp add: upt_conv_Cons)
    have off: "200 * int j + int (length ?items) = 200 * int (Suc j)"
      using len by simp
    show ?thesis
      apply (subst page_loop.simps)
      using body nbrk cat IH upt off
      by (simp add: Let_def page_query_def BATCH_LIMIT_def add.commute)
  qed
qed

text \<open>
  \<^bold>\<open>C5\<close>. Against a provider that serves the records \<open>rs\<close> in pages of 200 and
  reports their number to the count probe, \<^verbatim>\<open>get_mailjet_data_list\<close> returns: it
  issues the probe, then one page request per started block of 200 records (at least
  one) at the offsets 0, 200, 400 and so on, each with limit 200, and its result is
  \<open>rs\<close>, all records in the order of the provider. For 450 records these are three
  page requests at offsets 0, 200 and 400; for no record it is one page request and the
  empty list, not \<^verbatim>\<open>None\<close>. In general a page of \<open>n\<close> records ends the loop
  when \<open>n\<close> is zero or the offset it brings reaches the probed count, and otherwise
  the next request is at the offset advanced by \<open>n\<close>.
\<close>

theorem pagination_complete:
  "(serves w a au params rs \<longrightarrow>
      get_mailjet_data_list w a au (Some params) =
        Some (Get a au (dict_or [(''countOnly'', PInt 1)] params) #
                map (\<lambda>k. Get a au (page_query params k)) [0..<page_count (length rs)],
              Inr (Some rs))) \<and>
   (answers r ''Count'' (PInt n) \<and> answers r ''Data'' (PList items) \<longrightarrow>
      page_body (PInt c) offset data r =
        (if n = 0 \<or> c \<le> offset + n then PageBreak (data @ items)
         else PageNext (offset + n) (data @ items)))"
proof (intro conjI impI)
  assume s: "serves w a au params rs"
  have pc: "0 < page_count (length rs)" by (simp add: page_count_def)
  from s have probe: "count_probe (http_get w a au (dict_or [(''countOnly'', PInt 1)] params)) =
      Inr (Some (PInt (int (length rs))))"
    by (auto simp: serves_def answers_def count_probe_def split: response.splits option.splits)
  from page_loop_serves [OF s pc, of "[Get a au (dict_or [(''countOnly'', PInt 1)] params)]"] probe
  show "get_mailjet_data_list w a au (Some params) =
        Some (Get a au (dict_or [(''countOnly'', PInt 1)] params) #
                map (\<lambda>k. Get a au (page_query params k)) [0..<page_count (length rs)],
              Inr (Some rs))"
    by (simp add: get_mailjet_data_list_def Let_def)
next
  assume "answers r ''Count'' (PInt n) \<and> answers r ''Data'' (PList items)"
  then show "page_body (PInt c) offset data r =
        (if n = 0 \<or> c \<le> offset + n then PageBreak (data @ items)
         else PageNext (offset + n) (data @ items))"
    using answers_page_body by blast
qed

lemma paged_provider_serves: "serves (paged_provider rs) a au [] rs"
proof -
  have "nat (200 * int k) = 200 * k" for k
    by (simp add: nat_mult_distrib)
  then show ?thesis
    by (simp add: serves_def paged_provider_def answers_def page_query_def dict_or_def
          list_all_iff)
qed

lemma length_sample_records: "length sample_records = 450"
  by (simp add: sample_records_def)

theorem pagination_450:
  "get_mailjet_data_list (paged_provider sample_records) MAILJET_MESSAGE_API
       (PStr ''key'', PStr ''secret'') (Some []) =
     Some ([Get MAILJET_MESSAGE_API (PStr ''key'', PStr ''secret'') [(''countOnly'', PInt 1)],
            Get MAILJET_MESSAGE_API (PStr ''key'', PStr ''secret'')
              [(''Limit'', PInt 200), (''Offset'', PInt 0)],
            Get MAILJET_MESSAGE_API (PStr ''key'', PStr ''secret'')
              [(''Limit'', PInt 200), (''Offset'', PInt 200)],
            Get MAILJET_MESSAGE_API (PStr ''key'', PStr ''secret'')
              [(''Limit'', PInt 200), (''Offset'', PInt 400)]],
           Inr (Some sample_records)) \<and>
   length sample_records = 450"
proof -
  have pages: "[0..<page_count 450] = [0, 1, 2]"
    by (simp add: page_count_def upt_rec)
  show ?thesis
    using pagination_complete [THEN conjunct1, rule_format, OF paged_provider_serves,
        of sample_records MAILJET_MESSAGE_API "(PStr ''key'', PStr ''secret'')"]
    by (simp add: length_sample_records pages page_query_def dict_or_def)
qed

section \<open>Aggregation\<close>

lemma kd_get_kd_set:
  "kd_get (kd_set d k v) k' = (if key_norm k = key_norm k' then Some v else kd_get d k')"
  by (induction d) auto

lemma kd_get_norm: "key_norm s = key_norm k \<Longrightarrow> kd_get d s = kd_get d k"
  by (induction d) auto

lemma key_norm_eq_PStr: "key_norm s = key_norm k \<Longrightarrow> s \<in> PStr ` A \<longleftrightarrow> k \<in> PStr ` A"
  by (cases s; cases k) (auto split: if_splits)

lemma process_message_ok:
  assumes "has_status m"
  shows "\<exists>s. subscript m ''Status'' = Inr s \<and> hashable s \<and>
     process_message rdf (st, dt) m =
       Inr (kd_set st s (get_or (kd_get st s) 0 + 1),
            if s \<in> PStr ` set rdf
            then kd_set dt s (get_or (kd_get dt s) [] @ [detail_row (fields_of m)])
            else dt)"
  using assms
  by (auto simp: has_status_def process_message_def Let_def split: sum.splits)

text \<open>The loop from any statistics and details it has accumulated so far.\<close>

lemma process_messages_acc:
  assumes "\<forall>m \<in> set ms. has_status m"
  shows "\<exists>st dt. process_messages rdf (st0, dt0) ms = Inr (st, dt) \<and>
     (\<forall>k. kd_get st k =
        (if with_status k ms = [] then kd_get st0 k
         else Some (get_or (kd_get st0 k) 0 + int (length (with_status k ms))))) \<and>
     (\<forall>k. kd_get dt k =
        (if k \<in> PStr ` set rdf \<and> with_status k ms \<noteq> []
         then Some (get_or (kd_get dt0 k) [] @
                      map (\<lambda>m. detail_row (fields_of m)) (with_status k ms))
         else kd_get dt0 k))"
  using assms
proof (induction ms arbitrary: st0 dt0)
  case Nil
  then show ?case by (simp add: with_status_def)
next
  case (Cons m ms)
  from Cons.prems have hm: "has_status m" and rest: "\<forall>m \<in> set ms. has_status m" by auto
  from process_message_ok [OF hm, of rdf st0 dt0] obtain s where
    s: "subscript m ''Status'' = Inr s" and
    step: "process_message rdf (st0, dt0) m =
       Inr (kd_set st0 s (get_or (kd_get st0 s) 0 + 1),
            if s \<in> PStr ` set rdf
            then kd_set dt0 s (get_or (kd_get dt0 s) [] @ [detail_row (fields_of m)])
            else dt0)" by blast
  let ?st1 = "kd_set st0 s (get_or (kd_get st0 s) 0 + 1)"
  let ?dt1 = "if s \<in> PStr ` set rdf
            then kd_set dt0 s (get_or (kd_get dt0 s) [] @ [detail_row (fields_of m)])
            else dt0"
  from Cons.IH [OF rest, of ?st1 ?dt1] obtain st dt where
    run: "process_messages rdf (?st1, ?dt1) ms = Inr (st, dt)" and
    sts: "\<forall>k. kd_get st k =
        (if with_status k ms = [] then kd_get ?st1 k
         else Some (get_or (kd_get ?st1 k) 0 + int (length (with_status k ms))))" and
    dts: "\<forall>k. kd_get dt k =
        (if k \<in> PStr ` set rdf \<and> with_status k ms \<noteq> []
         then Some (get_or (kd_get ?dt1 k) [] @
                      map (\<lambda>m. detail_row (fields_of m)) (with_status k ms))
         else kd_get ?dt1 k)" by blast
  have is_m: "status_is k m \<longleftrightarrow> key_norm s = key_norm k" for k
    using s by (simp add: status_is_def)
  have "process_messages rdf (st0, dt0) (m # ms) = Inr (st, dt)"
    using step run by (simp add: bind_r_def)
  moreover have "kd_get st k =
        (if with_status k (m # ms) = [] then kd_get st0 k
         else Some (get_or (kd_get st0 k) 0 + int (length (with_status k (m # ms)))))" for k
  proof (cases "key_norm s = key_norm k")
    case True
    from True have same: "kd_get st0 s = kd_get st0 k" by (rule kd_get_norm)
    show ?thesis
      using sts [rule_format, of k] is_m [of k] True same
      by (simp add: with_status_def kd_get_kd_set get_or_def split: option.splits)
  next
    case False
    show ?thesis
      using sts [rule_format, of k] is_m [of k] False
      by (simp add: with_status_def kd_get_kd_set)
  qed
  moreover have "kd_get dt k =
        (if k \<in> PStr ` set rdf \<and> with_status k (m # ms) \<noteq> []
         then Some (get_or (kd_get dt0 k) [] @
                      map (\<lambda>m. detail_row (fields_of m)) (with_status k (m # ms)))
         else kd_get dt0 k)" for k
  proof (cases "key_norm s = key_norm k")
    case True
    then have mem: "s \<in> PStr ` set rdf \<longleftrightarrow> k \<in> PStr ` set rdf"
      by (rule key_norm_eq_PStr)
    from True have same: "kd_get dt0 s = kd_get dt0 k" by (rule kd_get_norm)
    show ?thesis
      using dts [rule_format, of k] is_m [of k] True mem same
      by (simp add: with_status_def kd_get_kd_set get_or_def split: option.splits)
  next
    case False
    show ?thesis
      using dts [rule_format, of k] is_m [of k] False
      by (simp add: with_status_def kd_get_kd_set)
  qed
  ultimately show ?case by blast
qed

text \<open>A detail row: the headers of the fields that the record has, and nothing else.\<close>

lemma row_keys:
  "fst ` set (List.map_filter (\<lambda>fh. map_option (\<lambda>v. (snd fh, v)) (map_of d (fst fh))) fs)
     \<subseteq> snd ` set fs"
  by (induction fs) (auto split: option.splits)

lemma row_absent:
  "h \<notin> snd ` set fs \<Longrightarrow>
   map_of (List.map_filter (\<lambda>fh. map_option (\<lambda>v. (snd fh, v)) (map_of d (fst fh))) fs) h = None"
  using row_keys [of d fs] by (auto simp: map_of_eq_None_iff)

lemma row_field:
  "distinct (map snd fs) \<Longrightarrow> (f, h) \<in> set fs \<Longrightarrow>
   map_of (List.map_filter (\<lambda>fh. map_option (\<lambda>v. (snd fh, v)) (map_of d (fst fh))) fs) h
     = map_of d f"
proof (induction fs)
  case Nil
  then show ?case by simp
next
  case (Cons fh fs)
  show ?case
  proof (cases "fh = (f, h)")
    case True
    with Cons.prems have "h \<notin> snd ` set fs" by auto
    from row_absent [OF this, of d] True show ?thesis
      by (cases "map_of d f") simp_all
  next
    case False
    with Cons.prems have mem: "(f, h) \<in> set fs" and d: "distinct (map snd fs)"
      by auto
    from mem have "h \<in> snd ` set fs" by force
    with Cons.prems have ne: "snd fh \<noteq> h" by auto
    from Cons.IH [OF d mem] ne show ?thesis
      by (cases "map_of d (fst fh)") simp_all
  qed
qed

lemma distinct_headers: "distinct (map snd MESSAGE_FIELDS)"
  by (simp add: MESSAGE_FIELDS_def)

lemma detail_row_field:
  "(f, h) \<in> set MESSAGE_FIELDS \<Longrightarrow> map_of (detail_row d) h = map_of d f"
  unfolding detail_row_def by (rule row_field [OF distinct_headers])

lemma detail_row_keys: "fst ` set (detail_row d) \<subseteq> snd ` set MESSAGE_FIELDS"
  unfolding detail_row_def by (rule row_keys)

text \<open>
  \<^bold>\<open>C6\<close>. For every list of fetched records that each have a status, and every list
  of statuses to report in detail, the aggregation returns statistics and details such
  that: the count of a status is the number of records with that status, and a status
  without records has no count; the details hold, under each status that is to be
  reported in detail and has records, one row per record of that status in the order of
  the records, and nothing under any other status; the row of a record maps the header
  of each of the five fields \<^verbatim>\<open>ID\<close>, \<^verbatim>\<open>ArrivedAt\<close>, \<^verbatim>\<open>ContactAlt\<close>,
  \<^verbatim>\<open>Status\<close>, \<^verbatim>\<open>Subject\<close> to the record's value of that field when the record
  has it, has no entry for the header when the record lacks the field, and has no
  other keys.
\<close>

theorem aggregation_correct:
  assumes "list_all has_status ms"
  shows "\<exists>st dt. process_messages rdf ([], []) ms = Inr (st, dt) \<and>
     (\<forall>k. kd_get st k =
        (if with_status k ms = [] then None else Some (int (length (with_status k ms))))) \<and>
     (\<forall>k. kd_get dt k =
        (if k \<in> PStr ` set rdf \<and> with_status k ms \<noteq> []
         then Some (map (\<lambda>m. detail_row (fields_of m)) (with_status k ms))
         else None)) \<and>
     (\<forall>m \<in> set ms. \<forall>fh \<in> set MESSAGE_FIELDS.
        map_of (detail_row (fields_of m)) (snd fh) = map_of (fields_of m) (fst fh)) \<and>
     (\<forall>m \<in> set ms. fst ` set (detail_row (fields_of m)) \<subseteq> snd ` set MESSAGE_FIELDS)"
proof -
  from assms have "\<forall>m \<in> set ms. has_status m" by (simp add: list_all_iff)
  from process_messages_acc [OF this, of rdf "[]" "[]"] obtain st dt where
    "process_messages rdf ([], []) ms = Inr (st, dt)"
    "\<forall>k. kd_get st k =
        (if with_status k ms = [] then None else Some (int (length (with_status k ms))))"
    "\<forall>k. kd_get dt k =
        (if k \<in> PStr ` set rdf \<and> with_status k ms \<noteq> []
         then Some (map (\<lambda>m. detail_row (fields_of m)) (with_status k ms))
         else None)"
    by (auto simp: get_or_def)
  moreover have "\<forall>m \<in> set ms. \<forall>fh \<in> set MESSAGE_FIELDS.
        map_of (detail_row (fields_of m)) (snd fh) = map_of (fields_of m) (fst fh)"
    using detail_row_field by (metis prod.collapse)
  moreover have "\<forall>m \<in> set ms. fst ` set (detail_row (fields_of m)) \<subseteq> snd ` set MESSAGE_FIELDS"
    using detail_row_keys by blast
  ultimately show ?thesis by blast
qed

text \<open>Two bounces, the second without a subject, and one delivery; bounces in detail.\<close>

theorem aggregation_correct_example:
  "list_all has_status
     [PDict [(''ID'', PInt 1), (''Status'', PStr ''bounce''), (''Subject'', PStr ''Hello'')],
      PDict [(''ID'', PInt 2), (''Status'', PStr ''bounce'')],
      PDict [(''ID'', PInt 3), (''Status'', PStr ''delivered'')]] \<and>
   process_messages [''bounce''] ([], [])
     [PDict [(''ID'', PInt 1), (''Status'', PStr ''bounce''), (''Subject'', PStr ''Hello'')],
      PDict [(''ID'', PInt 2), (''Status'', PStr ''bounce'')],
      PDict [(''ID'', PInt 3), (''Status'', PStr ''delivered'')]] =
     Inr ([(PStr ''bounce'', 2), (PStr ''delivered'', 1)],
          [(PStr ''bounce'',
            [[(''id'', PInt 1), (''state'', PStr ''bounce''), (''subject'', PStr ''Hello'')],
             [(''id'', PInt 2), (''state'', PStr ''bounce'')]])])"
proof -
  have ok: "list_all has_status
     [PDict [(''ID'', PInt 1), (''Status'', PStr ''bounce''), (''Subject'', PStr ''Hello'')],
      PDict [(''ID'', PInt 2), (''Status'', PStr ''bounce'')],
      PDict [(''ID'', PInt 3), (''Status'', PStr ''delivered'')]]"
    by (simp add: has_status_def)
  have run: "process_messages [''bounce''] ([], [])
     [PDict [(''ID'', PInt 1), (''Status'', PStr ''bounce''), (''Subject'', PStr ''Hello'')],
      PDict [(''ID'', PInt 2), (''Status'', PStr ''bounce'')],
      PDict [(''ID'', PInt 3), (''Status'', PStr ''delivered'')]] =
     Inr ([(PStr ''bounce'', 2), (PStr ''delivered'', 1)],
          [(PStr ''bounce'',
            [[(''id'', PInt 1), (''state'', PStr ''bounce''), (''subject'', PStr ''Hello'')],
             [(''id'', PInt 2), (''state'', PStr ''bounce'')]])])"
    by (simp add: process_message_def detail_row_def fields_of_def MESSAGE_FIELDS_def
          List.map_filter_def bind_r_def get_or_def Let_def)
  show ?thesis
    using aggregation_correct [OF ok, of "[''bounce'']"]
    by - (rule conjI [OF ok run])
qed

section \<open>Rendering the details\<close>

lemma mapM_r_Inr: "mapM_r f xs = Inr ys \<Longrightarrow> x \<in> set xs \<Longrightarrow> \<exists>y. f x = Inr y"
  by (induction xs arbitrary: ys) (auto simp: bind_r_def split: sum.splits)

lemma mapM_r_raises:
  assumes "x \<in> set xs" and "f x = Inl e"
  shows "\<exists>e'. mapM_r f xs = Inl e'"
proof (cases "mapM_r f xs")
  case (Inl e')
  then show ?thesis by blast
next
  case (Inr ys)
  from mapM_r_Inr [where f = f, OF Inr assms(1)] assms(2) show ?thesis by simp
qed

lemma mapM_r_raises_only:
  assumes "mapM_r f xs = Inl e"
  shows "\<exists>x \<in> set xs. f x = Inl e"
  using assms
  by (induction xs) (auto simp: bind_r_def split: sum.splits)

lemma detail_cell_missing:
  "map_of row (fst fs) = None \<Longrightarrow> detail_cell L tz fmt row fs = Inl KeyError"
  by (simp add: detail_cell_def item_def bind_r_def)

lemma detail_cell_error:
  assumes "detail_cell L tz fmt row fs = Inl e" and "date_ok L tz fmt row"
  shows "e = KeyError"
  using assms
  by (auto simp: detail_cell_def item_def bind_r_def time_from_iso_format_def date_ok_def
        split: option.splits sum.splits if_splits)

lemma incomplete_row_raises:
  assumes "\<not> row_complete row"
  shows "\<exists>e. detail_row_html L tz fmt row = Inl e"
proof -
  from assms obtain fs where fs: "fs \<in> set REPORT_DETAILS_FIELDS"
    and "map_of row (fst fs) = None"
    by (auto simp: row_complete_def list_all_iff)
  then have "detail_cell L tz fmt row fs = Inl KeyError"
    by (simp add: detail_cell_missing)
  from mapM_r_raises [where f = "detail_cell L tz fmt row", OF fs this] show ?thesis
    by (auto simp: detail_row_html_def bind_r_def)
qed

lemma incomplete_rows_raise:
  assumes "\<not> rows_complete message_details"
  shows "\<exists>e. gen_bounce_data_html L cfg fmt message_details = Inl e"
proof -
  let ?tz = "get_or (timezone (get_global_settings cfg)) ''Europe/Amsterdam''"
  let ?tr = "get_or (status_translations cfg) []"
  from assms obtain entry row where entry: "entry \<in> set message_details"
    and row: "row \<in> set (snd entry)" and bad: "\<not> row_complete row"
    by (auto simp: rows_complete_def list_all_iff)
  from incomplete_row_raises [OF bad] obtain e where "detail_row_html L ?tz fmt row = Inl e"
    by blast
  from mapM_r_raises [where f = "detail_row_html L ?tz fmt", OF row this]
  have "\<exists>e. detail_table_html L ?tr ?tz fmt entry = Inl e"
    by (auto simp: detail_table_html_def bind_r_def)
  then obtain e' where "detail_table_html L ?tr ?tz fmt entry = Inl e'" by blast
  from mapM_r_raises [where f = "detail_table_html L ?tr ?tz fmt", OF entry this]
  show ?thesis
    by (auto simp: gen_bounce_data_html_def Let_def bind_r_def)
qed

lemma bounce_error_is_KeyError:
  assumes err: "gen_bounce_data_html L cfg fmt message_details = Inl e"
    and ok: "dates_ok L (get_or (timezone (get_global_settings cfg)) ''Europe/Amsterdam'') fmt
               message_details"
  shows "e = KeyError"
proof -
  let ?tz = "get_or (timezone (get_global_settings cfg)) ''Europe/Amsterdam''"
  let ?tr = "get_or (status_translations cfg) []"
  from err have "mapM_r (detail_table_html L ?tr ?tz fmt) message_details = Inl e"
    by (auto simp: gen_bounce_data_html_def Let_def bind_r_def split: sum.splits)
  from mapM_r_raises_only [OF this] obtain entry where entry: "entry \<in> set message_details"
    and "detail_table_html L ?tr ?tz fmt entry = Inl e" by blast
  then have "mapM_r (detail_row_html L ?tz fmt) (snd entry) = Inl e"
    by (auto simp: detail_table_html_def bind_r_def split: sum.splits)
  from mapM_r_raises_only [OF this] obtain row where row: "row \<in> set (snd entry)"
    and "detail_row_html L ?tz fmt row = Inl e" by blast
  then have "mapM_r (detail_cell L ?tz fmt row) REPORT_DETAILS_FIELDS = Inl e"
    by (auto simp: detail_row_html_def bind_r_def split: sum.splits)
  from mapM_r_raises_only [OF this] obtain fs where "detail_cell L ?tz fmt row fs = Inl e"
    by blast
  moreover from ok entry row have "date_ok L ?tz fmt row"
    by (auto simp: dates_ok_def list_all_iff)
  ultimately show ?thesis by (rule detail_cell_error)
qed

lemma message_body_raises:
  assumes "gen_bounce_data_html L cfg
             (get_or (p_time_format pd) (report_time_format (get_global_settings cfg)))
             message_details = Inl e"
  shows "\<exists>e'. message_body L cfg sub pd message_stats message_details last_ts current_ts = Inl e'"
  using assms unfolding message_body_def Let_def
  by (auto simp: bind_r_def split: sum.splits)

text \<open>
  \<^bold>\<open>C10\<close>. Whenever some row of the details lacks one of the keys
  \<^verbatim>\<open>date_time\<close>, \<^verbatim>\<open>contact\<close>, \<^verbatim>\<open>subject\<close>, \<^verbatim>\<open>gen_bounce_data_html\<close> raises
  instead of returning; the exception is the \<^verbatim>\<open>KeyError\<close> of the lookup unless the
  formatting of a date of the details raises first; and \<^verbatim>\<open>send_report\<close>, called
  with these details and statistics that are not empty (as they are whenever the details
  come from the aggregation), raises too, before any request is sent.
\<close>

theorem incomplete_detail_row_raises:
  assumes bad: "\<not> rows_complete message_details"
  shows "(\<exists>e. gen_bounce_data_html L cfg fmt message_details = Inl e) \<and>
         (dates_ok L (get_or (timezone (get_global_settings cfg)) ''Europe/Amsterdam'') fmt
            message_details \<longrightarrow>
          gen_bounce_data_html L cfg fmt message_details = Inl KeyError) \<and>
         (message_stats \<noteq> [] \<longrightarrow>
          (\<exists>e. send_report L w cfg sub message_stats message_details last_ts current_ts au =
                 ([], Inl e)))"
proof (intro conjI impI)
  show raises: "\<exists>e. gen_bounce_data_html L cfg fmt message_details = Inl e" for fmt
    by (rule incomplete_rows_raise [OF bad])
  show "gen_bounce_data_html L cfg fmt message_details = Inl KeyError"
    if "dates_ok L (get_or (timezone (get_global_settings cfg)) ''Europe/Amsterdam'') fmt
            message_details"
    using raises [of fmt] bounce_error_is_KeyError [OF _ that] by auto
  show "\<exists>e. send_report L w cfg sub message_stats message_details last_ts current_ts au =
                 ([], Inl e)"
    if stats: "message_stats \<noteq> []"
  proof (cases "profile_details sub")
    case None
    then show ?thesis by (simp add: send_report_def)
  next
    case (Some pd)
    from bad have ne: "message_details \<noteq> []" by (auto simp: rows_complete_def)
    from raises obtain e where
      "gen_bounce_data_html L cfg
         (get_or (p_time_format pd) (report_time_format (get_global_settings cfg)))
         message_details = Inl e"
      by blast
    from message_body_raises [OF this] obtain e' where
      "message_body L cfg sub pd message_stats message_details last_ts current_ts = Inl e'"
      by blast
    with Some stats ne show ?thesis by (simp add: send_report_def)
  qed
qed

text \<open>The details of a bounce whose record had no \<^verbatim>\<open>ArrivedAt\<close>.\<close>

theorem incomplete_detail_row_example:
  "gen_bounce_data_html plain_lib (acme_config [acme]) ''today''
     [(PStr ''bounce'', [[(''contact'', PStr ''jo@example.org''), (''subject'', PStr ''Hello'')]])]
     = Inl KeyError \<and>
   send_report plain_lib acme_provider (acme_config [acme])
     (acme\<lparr>profile_details := Some std_profile\<rparr>) [(PStr ''bounce'', 1)]
     [(PStr ''bounce'', [[(''contact'', PStr ''jo@example.org''), (''subject'', PStr ''Hello'')]])]
     (PInt 1600000000) 1700000000 (PStr ''id'', PStr ''secret'')
     = ([], Inl KeyError)"
proof -
  have bad: "\<not> rows_complete
     [(PStr ''bounce'', [[(''contact'', PStr ''jo@example.org''), (''subject'', PStr ''Hello'')]])]"
    by (simp add: rows_complete_def row_complete_def REPORT_DETAILS_FIELDS_def)
  have ok: "dates_ok plain_lib
     (get_or (timezone (get_global_settings (acme_config [acme]))) ''Europe/Amsterdam'') ''today''
     [(PStr ''bounce'', [[(''contact'', PStr ''jo@example.org''), (''subject'', PStr ''Hello'')]])]"
    by (simp add: dates_ok_def date_ok_def)
  have sent: "send_report plain_lib acme_provider (acme_config [acme])
     (acme\<lparr>profile_details := Some std_profile\<rparr>) [(PStr ''bounce'', 1)]
     [(PStr ''bounce'', [[(''contact'', PStr ''jo@example.org''), (''subject'', PStr ''Hello'')]])]
     (PInt 1600000000) 1700000000 (PStr ''id'', PStr ''secret'')
     = ([], Inl KeyError)"
    by (simp add: send_report_def message_body_def gen_bounce_data_html_def
          detail_table_html_def detail_row_html_def detail_cell_def REPORT_DETAILS_FIELDS_def
          gen_message_stats_html_def status_label_def skip_flag_def get_or_def item_def
          get_global_settings_def report_time_format_def subject_date_format_def
          time_from_timestamp_def recipient_entry_def bind_r_def Let_def
          plain_lib_def acme_config_def acme_def std_profile_def)
  from incomplete_detail_row_raises [OF bad, of plain_lib "acme_config [acme]" "''today''"]
  have "dates_ok plain_lib
          (get_or (timezone (get_global_settings (acme_config [acme]))) ''Europe/Amsterdam'')
          ''today''
          [(PStr ''bounce'',
            [[(''contact'', PStr ''jo@example.org''), (''subject'', PStr ''Hello'')]])] \<longrightarrow>
        gen_bounce_data_html plain_lib (acme_config [acme]) ''today''
          [(PStr ''bounce'',
            [[(''contact'', PStr ''jo@example.org''), (''subject'', PStr ''Hello'')]])]
          = Inl KeyError"
    by (rule conjunct1 [OF conjunct2])
  then have "gen_bounce_data_html plain_lib (acme_config [acme]) ''today''
          [(PStr ''bounce'',
            [[(''contact'', PStr ''jo@example.org''), (''subject'', PStr ''Hello'')]])]
          = Inl KeyError"
    using ok by (rule mp)
  then show ?thesis using sent by (rule conjI)
qed

section \<open>send_report\<close>

lemmas render_defs = send_report_def message_body_def gen_bounce_data_html_def
  gen_message_stats_html_def skip_flag_def get_or_def item_def get_global_settings_def
  report_time_format_def subject_date_format_def time_from_timestamp_def recipient_entry_def

lemmas fixture_defs = plain_lib_def acme_provider_def std_profile_def acme_def
  acme_config_def full_environ_def

text \<open>
  \<^bold>\<open>C4\<close>. Let the effective flag \<^verbatim>\<open>skip_if_no_details\<close> of a subaccount be its
  own value of that key when it has the key, else the value of its profile, else false,
  and likewise for \<^verbatim>\<open>skip_if_no_data\<close>. Whenever the effective
  \<^verbatim>\<open>skip_if_no_details\<close> is true and the details are empty, or the effective
  \<^verbatim>\<open>skip_if_no_data\<close> is true and the statistics are empty, \<^verbatim>\<open>send_report\<close>
  returns false with no request sent and no line logged, whatever building the message
  would have done.
\<close>

theorem skip_policy:
  assumes "profile_details sub = Some pd"
    and "skip_flag (skip_if_no_details sub) (p_skip_if_no_details pd) \<and> message_details = []
         \<or> skip_flag (skip_if_no_data sub) (p_skip_if_no_data pd) \<and> message_stats = []"
  shows "send_report L w cfg sub message_stats message_details last_ts current_ts au =
           ([], Inr False)"
  using assms by (simp add: send_report_def)

text \<open>The profile asks to skip reports without details; the subaccount says nothing.\<close>

theorem skip_policy_example:
  "send_report plain_lib acme_provider (acme_config [acme])
     (acme\<lparr>profile_details := Some (std_profile\<lparr>p_skip_if_no_details := Some True\<rparr>)\<rparr>)
     [(PStr ''sent'', 3)] [] (PInt 1600000000) 1700000000 (PStr ''id'', PStr ''secret'') =
     ([], Inr False)"
  using skip_policy [of "acme\<lparr>profile_details := Some (std_profile\<lparr>p_skip_if_no_details := Some True\<rparr>)\<rparr>"
      "std_profile\<lparr>p_skip_if_no_details := Some True\<rparr>" "[]" "[(PStr ''sent'', 3)]"]
  by (simp add: skip_flag_def get_or_def acme_def std_profile_def)

text \<open>
  The claim as it is worded does not hold: a profile that sets the flag is overruled by
  a subaccount that sets it to false, and the report is sent.
\<close>

theorem profile_skip_overridden:
  "send_report plain_lib acme_provider (acme_config [acme])
     (acme\<lparr>skip_if_no_details := Some False,
            profile_details := Some (std_profile\<lparr>p_skip_if_no_details := Some True\<rparr>)\<rparr>)
     [] [] (PInt 1600000000) 1700000000 (PStr ''id'', PStr ''secret'') =
     ([Post MAILJET_MAIL_SEND_API (PStr ''id'', PStr ''secret'') acme_message], Inr True)"
  by (simp add: render_defs fixture_defs acme_message_def bind_r_def Let_def)

text \<open>
  \<^bold>\<open>C9\<close>. In every message that \<^verbatim>\<open>send_report\<close> builds, the subject is the
  subject template of the profile formatted with the subaccount name and the subject
  date; the subject date is the window end rendered in the global timezone (default
  \<^verbatim>\<open>Europe/Amsterdam\<close>) with the global \<^verbatim>\<open>time_format\<close> when the configuration
  sets one, and with \<^verbatim>\<open>%Y-%m-%d\<close> otherwise; \<^verbatim>\<open>rep_start\<close> and
  \<^verbatim>\<open>rep_end\<close> are the window start and end rendered in the same timezone with the
  global \<^verbatim>\<open>time_format\<close>, or with \<^verbatim>\<open>%Y-%m-%d %H:%M:%S\<close> when there is none.
\<close>

theorem subject_and_window:
  assumes body: "message_body L cfg sub pd message_stats message_details last_ts current_ts
                   = Inr body"
  shows "\<exists>template nm subject_date subj rep_start rep_end.
           subject pd = Some template \<and> name sub = Some nm \<and>
           strftime_ts L (PInt current_ts)
             (get_or (timezone (get_global_settings cfg)) ''Europe/Amsterdam'')
             (subject_date_format (get_global_settings cfg)) = Inr subject_date \<and>
           str_format L template nm subject_date = Inr subj \<and>
           outbound body ''Subject'' = Inr (PStr subj) \<and>
           strftime_ts L last_ts
             (get_or (timezone (get_global_settings cfg)) ''Europe/Amsterdam'')
             (report_time_format (get_global_settings cfg)) = Inr rep_start \<and>
           variable body ''rep_start'' = Inr (PStr rep_start) \<and>
           strftime_ts L (PInt current_ts)
             (get_or (timezone (get_global_settings cfg)) ''Europe/Amsterdam'')
             (report_time_format (get_global_settings cfg)) = Inr rep_end \<and>
           variable body ''rep_end'' = Inr (PStr rep_end) \<and>
           subject_date_format (get_global_settings cfg) =
             get_or (g_time_format (get_global_settings cfg)) ''%Y-%m-%d'' \<and>
           report_time_format (get_global_settings cfg) =
             get_or (g_time_format (get_global_settings cfg)) ''%Y-%m-%d %H:%M:%S''"
proof -
  have eq: "bind_r m f = Inr y \<longleftrightarrow> (\<exists>x. m = Inr x \<and> f x = Inr y)" for m :: "exn + 'a"
    and f :: "'a \<Rightarrow> exn + 'b" and y
    by (cases m) (simp_all add: bind_r_def)
  from body show ?thesis
    unfolding message_body_def Let_def eq
    by (auto simp: item_def outbound_def variable_def bind_r_def time_from_timestamp_def
          report_time_format_def subject_date_format_def split: option.splits)
qed

lemma acme_message_body:
  "message_body plain_lib (acme_config [acme]) acme std_profile [] [] (PInt 1600000000)
     1700000000 = Inr acme_message"
  by (simp add: render_defs fixture_defs acme_message_def bind_r_def Let_def)

theorem subject_and_window_example:
  "message_body plain_lib (acme_config [acme]) acme std_profile [] [] (PInt 1600000000)
     1700000000 = Inr acme_message \<and>
   outbound acme_message ''Subject'' = Inr (PStr ''Mail report'') \<and>
   variable acme_message ''rep_end'' = Inr (PStr ''today'')"
proof -
  have fields: "outbound acme_message ''Subject'' = Inr (PStr ''Mail report'') \<and>
      variable acme_message ''rep_end'' = Inr (PStr ''today'')"
    by (simp add: outbound_def variable_def acme_message_def bind_r_def)
  show ?thesis
    using subject_and_window [OF acme_message_body]
    by - (rule conjI [OF acme_message_body fields])
qed

text \<open>
  The claim as it is worded does not hold: with the global \<^verbatim>\<open>time_format\<close> set to a
  format with a time of day, the subject date is rendered with that format.
\<close>

theorem subject_date_not_date_only:
  "subject_date_format
     \<lparr>timezone = None, g_time_format = Some ''%Y-%m-%d %H:%M:%S'', g_report_days = None,
      default_max_report_days = None\<rparr> = ''%Y-%m-%d %H:%M:%S'' \<and>
   \<not> date_only ''%Y-%m-%d %H:%M:%S'' \<and>
   date_only ''%Y-%m-%d''"
  by (simp add: date_only_def subject_date_format_def get_or_def)

section \<open>The run\<close>

lemmas main_defs = main_def load_state_def validate_profiles_def validate_profile_def
  validate_subaccounts_def validate_subaccount_def get_subaccount_data_def credential_entry_def
  process_subaccount_def report_cycle_def write_state_def

text \<open>The runs over the concrete inputs.\<close>

lemma acme_run:
  "main plain_lib acme_provider full_environ (FileContent (Some (acme_config [acme])))
     (FileContent (Some (PDict [(''7'', PInt t)]))) (CHR ''1'') 1700000000 =
     Some (acme_events t @ write_state (PDict [(''7'', PInt 1700000000)]), Returned)"
  by (simp add: main_defs fetch_defs render_defs fixture_defs acme_events_def
        directory_requests_def acme_message_def)

text \<open>
  \<^bold>\<open>C3\<close>. The claim: a state file that holds \<^verbatim>\<open>null\<close> or nothing means "start
  fresh", and the run goes on with an empty mapping. With a state file that holds
  \<^verbatim>\<open>null\<close>, the line is logged and \<^verbatim>\<open>state\<close> stays \<^verbatim>\<open>None\<close>: the first
  subaccount that reaches line 420 raises \<^verbatim>\<open>AttributeError\<close>, and the run ends
  there without writing the state file. With a state file of no bytes,
  \<^verbatim>\<open>json.load\<close> raises \<^verbatim>\<open>JSONDecodeError\<close>, which line 302 does not catch.
\<close>

theorem null_state_aborts_run:
  "main plain_lib acme_provider full_environ (FileContent (Some (acme_config [acme])))
     (FileContent (Some PNone)) (CHR ''1'') 1700000000 =
     Some (Log INFO ''State file is empty, reporting over the last %s days'' #
             directory_requests,
           Raised AttributeError) \<and>
   main plain_lib acme_provider full_environ (FileContent (Some (acme_config [acme])))
     (FileContent None) (CHR ''1'') 1700000000 =
     Some ([], Raised JSONDecodeError)"
  by (simp add: main_defs fetch_defs render_defs fixture_defs directory_requests_def)

text \<open>An invalid entry that has a name is passed over by the processing loop.\<close>

lemma named_invalid_entry_skipped:
  assumes "\<not> get_or (valid sa) False" and "name sa = Some nm"
  shows "process_subaccount L w cfg profs sd ma day now dflt state sa =
           Some ([Log WARNING ''Subaccount %s not valid, skipping''], Inr state)"
  using assms by (simp add: process_subaccount_def report_cycle_def)

text \<open>
  \<^bold>\<open>C8\<close>. The claim: an entry of \<^verbatim>\<open>subaccount_reports\<close> that lacks a required
  field, its name included, is logged and skipped by both loops. With an entry without a
  name followed by a valid entry, the validation loop logs the entry and goes on, and the
  processing loop raises \<^verbatim>\<open>KeyError\<close> at line 401, where the warning for the
  invalid entry reads its name: the valid entry is never processed and the state file is
  not written.
\<close>

theorem missing_name_aborts_run:
  "main plain_lib acme_provider full_environ
     (FileContent (Some (acme_config [acme\<lparr>name := None\<rparr>, acme])))
     FileNotFound (CHR ''1'') 1700000000 =
     Some (Log DEBUG ''State file %s not found, creating initial file'' #
           Log ERROR ''Subaccount name not found in subaccount report config, skipping'' #
           directory_requests,
           Raised KeyError)"
  by (simp add: main_defs fetch_defs render_defs fixture_defs directory_requests_def)

subsection \<open>The events of a run\<close>

lemma no_state_events_Nil [simp]: "no_state_events []"
  by (simp add: no_state_events_def)

lemma no_state_events_Cons [simp]:
  "no_state_events (e # es) \<longleftrightarrow> \<not> is_state_event e \<and> no_state_events es"
  by (simp add: no_state_events_def)

lemma no_state_events_append [simp]:
  "no_state_events (xs @ ys) \<longleftrightarrow> no_state_events xs \<and> no_state_events ys"
  by (simp add: no_state_events_def)

lemma no_state_events_logs: "no_state_events (map (\<lambda>x. Log l s) xs)"
  by (induction xs) auto

lemma no_state_events_concat:
  "(\<And>x. x \<in> set xs \<Longrightarrow> no_state_events (f x)) \<Longrightarrow> no_state_events (concat (map f xs))"
  by (induction xs) auto

lemma page_loop_events:
  assumes ret: "page_loop w a au params count offset data tr = Some r"
  shows "no_state_events tr \<longrightarrow> no_state_events (fst r)"
proof (rule page_loop.raw_induct
    [where P = "\<lambda>w a au params count offset data tr r.
                  no_state_events tr \<longrightarrow> no_state_events (fst r)",
     OF _ ret])
  fix f and w :: world and a au params count offset data tr r
  assume IH: "\<And>w a au params count offset data tr r.
      f w a au params count offset data tr = Some r \<Longrightarrow>
      no_state_events tr \<longrightarrow> no_state_events (fst r)"
    and eq: "(let query_params =
                    dict_or [(''Limit'', PInt BATCH_LIMIT), (''Offset'', PInt offset)] params;
                  tr' = tr @ [Get a au query_params]
              in case page_body count offset data (http_get w a au query_params) of
                   PageRaise e \<Rightarrow> Some (tr', Inl e)
                 | PageBreak data' \<Rightarrow> Some (tr', Inr data')
                 | PageNext offset' data' \<Rightarrow> f w a au params count offset' data' tr') = Some r"
  show "no_state_events tr \<longrightarrow> no_state_events (fst r)"
  proof (cases "page_body count offset data
       (http_get w a au
          (dict_or [(''Limit'', PInt BATCH_LIMIT), (''Offset'', PInt offset)] params))")
    case (PageRaise e)
    with eq show ?thesis by (auto simp: Let_def)
  next
    case (PageBreak d)
    with eq show ?thesis by (auto simp: Let_def)
  next
    case (PageNext o' d')
    with eq have "f w a au params count o' d'
       (tr @ [Get a au (dict_or [(''Limit'', PInt BATCH_LIMIT), (''Offset'', PInt offset)]
                          params)]) = Some r"
      by (simp add: Let_def)
    from IH [OF this] show ?thesis by simp
  qed
qed

lemma get_mailjet_data_list_events:
  assumes "get_mailjet_data_list w a au params = Some r"
  shows "no_state_events (fst r)"
proof (cases "count_probe (http_get w a au
          (dict_or [(''countOnly'', PInt 1)] (case params of None \<Rightarrow> [] | Some p \<Rightarrow> p)))")
  case (Inl e)
  with assms show ?thesis by (auto simp: get_mailjet_data_list_def Let_def)
next
  case (Inr c)
  show ?thesis
  proof (cases c)
    case None
    with Inr assms show ?thesis by (auto simp: get_mailjet_data_list_def Let_def)
  next
    case (Some count)
    with Inr assms obtain r' where
      loop: "page_loop w a au (case params of None \<Rightarrow> [] | Some p \<Rightarrow> p) count 0 []
          [Get a au (dict_or [(''countOnly'', PInt 1)]
                       (case params of None \<Rightarrow> [] | Some p \<Rightarrow> p))] = Some r'"
      and r: "fst r = fst r'"
      by (auto simp: get_mailjet_data_list_def Let_def
            split: option.splits sum.splits prod.splits)
    from page_loop_events [OF loop] r show ?thesis by simp
  qed
qed

lemma get_mailjet_data_list_trace:
  "get_mailjet_data_list w a au params = Some (tr, x) \<Longrightarrow> no_state_events tr"
  using get_mailjet_data_list_events [of w a au params "(tr, x)"] by simp

lemma get_subaccount_data_events:
  assumes "get_subaccount_data w au = Some r"
  shows "no_state_events (fst r)"
proof -
  from assms obtain r' where g: "get_mailjet_data_list w MAILJET_APIKEY_API au None = Some r'"
    and r: "fst r = fst r' \<or> fst r = fst r' @ [Log ERROR ''Error fetching subaccount data'']"
    by (auto simp: get_subaccount_data_def split: option.splits sum.splits prod.splits)
  from get_mailjet_data_list_events [OF g] r show ?thesis by auto
qed

lemma send_report_events:
  "no_state_events (fst (send_report L w cfg sa st dt last_ts now au))"
  by (auto simp: send_report_def split: option.splits sum.splits response.splits)

lemma send_report_trace:
  "send_report L w cfg sa st dt last_ts now au = (tr, x) \<Longrightarrow> no_state_events tr"
  using send_report_events [of L w cfg sa st dt last_ts now au] by simp

lemma report_cycle_events:
  assumes "report_cycle L w cfg profs sd ma day now dflt state sa = Some (tr, x)"
  shows "no_state_events tr"
  using assms unfolding report_cycle_def Let_def
  by (auto split: option.splits sum.splits prod.splits if_splits
        dest!: get_mailjet_data_list_trace send_report_trace)

lemma process_subaccount_events:
  assumes "process_subaccount L w cfg profs sd ma day now dflt state sa = Some (tr, x)"
  shows "no_state_events tr"
  using assms unfolding process_subaccount_def
  by (auto split: option.splits sum.splits prod.splits if_splits cycle.splits
        dest!: report_cycle_events)

lemma process_subaccounts_events:
  "process_subaccounts L w cfg profs sd ma day now dflt state sas = Some (tr, x) \<Longrightarrow>
   no_state_events tr"
proof (induction sas arbitrary: state tr x)
  case Nil
  then show ?case by auto
next
  case (Cons sa sas)
  then show ?case
    by (auto split: option.splits sum.splits prod.splits dest!: process_subaccount_events)
qed

lemma validate_profiles_events: "no_state_events (fst (validate_profiles ps))"
  unfolding validate_profiles_def
  by (auto intro!: no_state_events_concat simp: validate_profile_def)

lemma validate_subaccounts_events: "no_state_events (fst (validate_subaccounts profs rdd sas))"
  unfolding validate_subaccounts_def
  by (auto intro!: no_state_events_concat
        simp: validate_subaccount_def Let_def no_state_events_logs split: option.splits)

lemma load_state_trace: "load_state sf = (tr0, x) \<Longrightarrow> no_state_events tr0"
  by (auto simp: load_state_def split: file_read.splits option.splits if_splits)

lemma main_aborted:
  assumes run: "main L w env cf sf day now = Some (evs, out)" and out: "out \<noteq> Returned"
  shows "no_state_events evs"
  using run out unfolding main_def Let_def
  by (auto split: option.splits sum.splits prod.splits if_splits file_read.splits
        dest!: get_subaccount_data_events process_subaccounts_events load_state_trace
        simp: validate_profiles_events validate_subaccounts_events)

text \<open>A run that returns has gone through the loop and ends with the write of its state.\<close>

lemma main_returned_raw:
  assumes run: "main L w env cf sf day now = Some (evs, Returned)"
  shows "\<exists>cfg app_id app_secret tr0 state0 tr3 sd tr4 s.
           cf = FileContent (Some cfg) \<and>
           MAILJET_APP_ID env = Some app_id \<and> MAILJET_APP_SECRET env = Some app_secret \<and>
           load_state sf = (tr0, Inr state0) \<and>
           get_subaccount_data w (PStr app_id, PStr app_secret) = Some (tr3, Inr (Some sd)) \<and>
           process_subaccounts L w cfg (snd (validate_profiles (get_or (profiles cfg) []))) sd
             (PStr app_id, PStr app_secret) day now
             (now - 86400 * get_or (default_max_report_days (get_global_settings cfg)) 1)
             state0
             (snd (validate_subaccounts (snd (validate_profiles (get_or (profiles cfg) [])))
                     (get_or (g_report_days (get_global_settings cfg)) ''01234'')
                     (get_or (subaccount_reports cfg) []))) = Some (tr4, Inr s) \<and>
           evs = tr0 @ fst (validate_profiles (get_or (profiles cfg) [])) @
                 fst (validate_subaccounts (snd (validate_profiles (get_or (profiles cfg) [])))
                        (get_or (g_report_days (get_global_settings cfg)) ''01234'')
                        (get_or (subaccount_reports cfg) [])) @
                 tr3 @ tr4 @ write_state s"
  using run unfolding main_def Let_def
  by (auto split: option.splits sum.splits prod.splits if_splits file_read.splits)

lemma main_returned:
  assumes run: "main L w env cf sf day now = Some (evs, Returned)"
  shows "\<exists>cfg profs sd ma dflt sas tr0 state0 tr4 s pre.
           load_state sf = (tr0, Inr state0) \<and>
           process_subaccounts L w cfg profs sd ma day now dflt state0 sas = Some (tr4, Inr s) \<and>
           evs = pre @ write_state s \<and> no_state_events pre"
proof -
  from main_returned_raw [OF run] obtain cfg app_id app_secret tr0 state0 tr3 sd tr4 s
    where ls: "load_state sf = (tr0, Inr state0)"
      and sd: "get_subaccount_data w (PStr app_id, PStr app_secret) = Some (tr3, Inr (Some sd))"
      and loop: "process_subaccounts L w cfg
             (snd (validate_profiles (get_or (profiles cfg) []))) sd
             (PStr app_id, PStr app_secret) day now
             (now - 86400 * get_or (default_max_report_days (get_global_settings cfg)) 1)
             state0
             (snd (validate_subaccounts (snd (validate_profiles (get_or (profiles cfg) [])))
                     (get_or (g_report_days (get_global_settings cfg)) ''01234'')
                     (get_or (subaccount_reports cfg) []))) = Some (tr4, Inr s)"
      and evs: "evs = (tr0 @ fst (validate_profiles (get_or (profiles cfg) [])) @
                 fst (validate_subaccounts (snd (validate_profiles (get_or (profiles cfg) [])))
                        (get_or (g_report_days (get_global_settings cfg)) ''01234'')
                        (get_or (subaccount_reports cfg) [])) @
                 tr3 @ tr4) @ write_state s"
    by auto
  have "no_state_events tr0" using ls by (rule load_state_trace)
  moreover have "no_state_events tr3" using get_subaccount_data_events [OF sd] by simp
  moreover have "no_state_events tr4" using loop by (rule process_subaccounts_events)
  ultimately have "no_state_events (tr0 @ fst (validate_profiles (get_or (profiles cfg) [])) @
                 fst (validate_subaccounts (snd (validate_profiles (get_or (profiles cfg) [])))
                        (get_or (g_report_days (get_global_settings cfg)) ''01234'')
                        (get_or (subaccount_reports cfg) [])) @
                 tr3 @ tr4)"
    by (simp add: validate_profiles_events validate_subaccounts_events)
  with ls loop evs show ?thesis by blast
qed

lemma disk_untouched:
  "no_state_events evs \<Longrightarrow> foldl disk_step (Intact, None) evs = (Intact, None)"
proof (induction evs rule: rev_induct)
  case Nil
  then show ?case by simp
next
  case (snoc e evs)
  then show ?case by (cases e) auto
qed

lemma disk_after_untouched: "no_state_events evs \<Longrightarrow> disk_after evs = Intact"
  by (simp add: disk_after_def disk_untouched)

lemma disk_after_write:
  "no_state_events pre \<Longrightarrow> disk_after (pre @ write_state s) = Holds s"
  by (simp add: disk_after_def disk_untouched write_state_def)

lemma dumped_none: "no_state_events evs \<Longrightarrow> dumped evs = []"
proof (induction evs)
  case Nil
  then show ?case by (simp add: dumped_def)
next
  case (Cons e evs)
  then show ?case by (cases e) (auto simp: dumped_def)
qed

lemma dumped_write: "no_state_events pre \<Longrightarrow> dumped (pre @ write_state s) = [s]"
proof -
  assume "no_state_events pre"
  then have "dumped pre = []" by (rule dumped_none)
  moreover have "dumped (pre @ write_state s) = dumped pre @ dumped (write_state s)"
    by (simp add: dumped_def)
  moreover have "dumped (write_state s) = [s]"
    by (simp add: dumped_def write_state_def)
  ultimately show ?thesis by simp
qed

lemma acme_events_no_state: "no_state_events (acme_events t)"
  by (simp add: acme_events_def directory_requests_def)

subsection \<open>Watermarks\<close>

lemma map_of_dict_set: "map_of (dict_set d k v) k' = (if k' = k then Some v else map_of d k')"
  by (induction d) auto

lemma process_subaccount_state:
  assumes "process_subaccount L w cfg profs sd ma day now dflt (PDict d) sa =
             Some (tr, Inr state')"
  shows "state' =
     (case report_cycle L w cfg profs sd ma day now dflt (PDict d) sa of
        Some (tr0, Inr (Dispatched sid True)) \<Rightarrow> PDict (dict_set d sid (PInt now))
      | _ \<Rightarrow> PDict d)"
  using assms
  by (auto simp: process_subaccount_def
        split: option.splits sum.splits cycle.splits bool.splits if_splits)

lemma watermarks_committed:
  assumes "process_subaccounts L w cfg profs sd ma day now dflt (PDict d) sas =
             Some (tr, Inr state')"
  shows "\<exists>d'. state' = PDict d' \<and>
     (\<forall>sid. map_of d' sid =
        (if sid \<in> set (dispatched_ids L w cfg profs sd ma day now dflt (PDict d) sas)
         then Some (PInt now) else map_of d sid))"
  using assms
proof (induction sas arbitrary: d tr)
  case Nil
  then show ?case by auto
next
  case (Cons sa sas)
  from Cons.prems obtain tr1 s1 tr2 where
    step: "process_subaccount L w cfg profs sd ma day now dflt (PDict d) sa =
             Some (tr1, Inr s1)"
    and rest: "process_subaccounts L w cfg profs sd ma day now dflt s1 sas =
             Some (tr2, Inr state')"
    by (auto split: option.splits sum.splits prod.splits)
  note s1 = process_subaccount_state [OF step]
  show ?case
  proof (cases "\<exists>tr0 sid. report_cycle L w cfg profs sd ma day now dflt (PDict d) sa =
                   Some (tr0, Inr (Dispatched sid True))")
    case True
    then obtain tr0 sid where
      rc: "report_cycle L w cfg profs sd ma day now dflt (PDict d) sa =
             Some (tr0, Inr (Dispatched sid True))" by blast
    with s1 have s1': "s1 = PDict (dict_set d sid (PInt now))" by simp
    from Cons.IH [OF rest [unfolded s1']] obtain d' where
      "state' = PDict d'" and
      "\<forall>k. map_of d' k =
        (if k \<in> set (dispatched_ids L w cfg profs sd ma day now dflt
                        (PDict (dict_set d sid (PInt now))) sas)
         then Some (PInt now) else map_of (dict_set d sid (PInt now)) k)" by blast
    with rc show ?thesis by (auto simp: map_of_dict_set)
  next
    case False
    with s1 have s1': "s1 = PDict d"
      by (auto split: option.splits sum.splits cycle.splits bool.splits)
    from False have ids:
      "dispatched_ids L w cfg profs sd ma day now dflt (PDict d) (sa # sas) =
       (case report_cycle L w cfg profs sd ma day now dflt (PDict d) sa of
          Some (tr, Inr c) \<Rightarrow> dispatched_ids L w cfg profs sd ma day now dflt (PDict d) sas
        | _ \<Rightarrow> [])"
      by (auto split: option.splits sum.splits cycle.splits bool.splits)
    from step have "\<exists>tr0 c. report_cycle L w cfg profs sd ma day now dflt (PDict d) sa =
                      Some (tr0, Inr c)"
      by (auto simp: process_subaccount_def split: option.splits sum.splits)
    with ids have ids':
      "dispatched_ids L w cfg profs sd ma day now dflt (PDict d) (sa # sas) =
       dispatched_ids L w cfg profs sd ma day now dflt (PDict d) sas" by auto
    from Cons.IH [OF rest [unfolded s1']] ids' show ?thesis by simp
  qed
qed

lemma watermark_kept:
  assumes eq: "\<forall>sid. map_of d' sid = map_of d sid \<or> map_of d' sid = Some (PInt now)"
    and w: "watermark (PDict d) sid = Some t" and le: "t \<le> now"
  shows "\<exists>t'. watermark (PDict d') sid = Some t' \<and> t \<le> t'"
  using eq [rule_format, of sid] w le
  by (auto simp: watermark_def split: option.splits pyval.splits)

text \<open>
  \<^bold>\<open>C1\<close>. Over the loop of a run that starts from a state file holding an object:
  after the loop the watermark of a subaccount id is the run's timestamp \<open>now\<close> exactly
  when \<^verbatim>\<open>send_report\<close> returned true for that id in some pass, and is what it was
  before (or still absent) otherwise, so also after a skip by policy or a failed
  dispatch; a watermark that was not later than \<open>now\<close> has not decreased. The state a
  returning run writes is the state after the loop: each of its watermarks is the prior
  one or \<open>now\<close>, and none that was at most \<open>now\<close> has decreased.
\<close>

theorem watermark_commit:
  "(process_subaccounts L w cfg profs sd ma day now dflt (PDict d) sas = Some (tr, Inr state')
      \<longrightarrow>
      (\<exists>d'. state' = PDict d' \<and>
         (\<forall>sid. map_of d' sid =
            (if sid \<in> set (dispatched_ids L w cfg profs sd ma day now dflt (PDict d) sas)
             then Some (PInt now) else map_of d sid)) \<and>
         (\<forall>sid t. watermark (PDict d) sid = Some t \<and> t \<le> now \<longrightarrow>
            (\<exists>t'. watermark state' sid = Some t' \<and> t \<le> t')))) \<and>
   (main L w env cf sf day now = Some (evs, Returned) \<and> load_state sf = (tr0, Inr (PDict d))
      \<longrightarrow>
      (\<exists>d'. dumped evs = [PDict d'] \<and>
         (\<forall>sid. map_of d' sid = map_of d sid \<or> map_of d' sid = Some (PInt now)) \<and>
         (\<forall>sid t. watermark (PDict d) sid = Some t \<and> t \<le> now \<longrightarrow>
            (\<exists>t'. watermark (PDict d') sid = Some t' \<and> t \<le> t'))))"
proof (intro conjI impI)
  assume loop: "process_subaccounts L w cfg profs sd ma day now dflt (PDict d) sas =
                  Some (tr, Inr state')"
  from watermarks_committed [OF loop] obtain d' where d': "state' = PDict d'"
    and eq: "\<forall>sid. map_of d' sid =
        (if sid \<in> set (dispatched_ids L w cfg profs sd ma day now dflt (PDict d) sas)
         then Some (PInt now) else map_of d sid)" by blast
  from eq have "\<forall>sid. map_of d' sid = map_of d sid \<or> map_of d' sid = Some (PInt now)"
    by auto
  then have "\<forall>sid t. watermark (PDict d) sid = Some t \<and> t \<le> now \<longrightarrow>
            (\<exists>t'. watermark (PDict d') sid = Some t' \<and> t \<le> t')"
    using watermark_kept by blast
  with d' eq show "\<exists>d'. state' = PDict d' \<and>
         (\<forall>sid. map_of d' sid =
            (if sid \<in> set (dispatched_ids L w cfg profs sd ma day now dflt (PDict d) sas)
             then Some (PInt now) else map_of d sid)) \<and>
         (\<forall>sid t. watermark (PDict d) sid = Some t \<and> t \<le> now \<longrightarrow>
            (\<exists>t'. watermark state' sid = Some t' \<and> t \<le> t'))"
    by blast
next
  assume "main L w env cf sf day now = Some (evs, Returned) \<and>
          load_state sf = (tr0, Inr (PDict d))"
  then have run: "main L w env cf sf day now = Some (evs, Returned)"
    and ls: "load_state sf = (tr0, Inr (PDict d))" by auto
  from main_returned [OF run] ls obtain cfg profs sd ma dflt sas tr4 s pre where
    loop: "process_subaccounts L w cfg profs sd ma day now dflt (PDict d) sas =
             Some (tr4, Inr s)"
    and evs: "evs = pre @ write_state s" and pre: "no_state_events pre"
    by auto
  from watermarks_committed [OF loop] obtain d' where d': "s = PDict d'"
    and eq: "\<forall>sid. map_of d' sid =
        (if sid \<in> set (dispatched_ids L w cfg profs sd ma day now dflt (PDict d) sas)
         then Some (PInt now) else map_of d sid)" by blast
  from eq have either: "\<forall>sid. map_of d' sid = map_of d sid \<or> map_of d' sid = Some (PInt now)"
    by auto
  then have "\<forall>sid t. watermark (PDict d) sid = Some t \<and> t \<le> now \<longrightarrow>
            (\<exists>t'. watermark (PDict d') sid = Some t' \<and> t \<le> t')"
    using watermark_kept by blast
  moreover from evs pre d' have "dumped evs = [PDict d']"
    by (simp add: dumped_write)
  ultimately show "\<exists>d'. dumped evs = [PDict d'] \<and>
         (\<forall>sid. map_of d' sid = map_of d sid \<or> map_of d' sid = Some (PInt now)) \<and>
         (\<forall>sid t. watermark (PDict d) sid = Some t \<and> t \<le> now \<longrightarrow>
            (\<exists>t'. watermark (PDict d') sid = Some t' \<and> t \<le> t'))"
    using either by blast
qed

lemma acme_dumped:
  "dumped (acme_events t @ write_state (PDict [(''7'', PInt 1700000000)])) =
     [PDict [(''7'', PInt 1700000000)]]"
  by (rule dumped_write [OF acme_events_no_state])

text \<open>A run whose state file holds an earlier watermark for subaccount 7.\<close>

theorem watermark_commit_example:
  "run_outcome (main plain_lib acme_provider full_environ
       (FileContent (Some (acme_config [acme])))
       (FileContent (Some (PDict [(''7'', PInt 1600000000)]))) (CHR ''1'') 1700000000)
     = Some Returned \<and>
   dumped (run_events (main plain_lib acme_provider full_environ
       (FileContent (Some (acme_config [acme])))
       (FileContent (Some (PDict [(''7'', PInt 1600000000)]))) (CHR ''1'') 1700000000))
     = [PDict [(''7'', PInt 1700000000)]] \<and>
   watermark (PDict [(''7'', PInt 1600000000)]) ''7'' = Some 1600000000 \<and>
   watermark (PDict [(''7'', PInt 1700000000)]) ''7'' = Some 1700000000"
proof -
  have ls: "load_state (FileContent (Some (PDict [(''7'', PInt 1600000000)]))) =
      ([], Inr (PDict [(''7'', PInt 1600000000)]))"
    by (simp add: load_state_def)
  have goal: ?thesis
    by (simp add: acme_run run_outcome_def run_events_def acme_dumped watermark_def)
  show ?thesis
    using watermark_commit [THEN conjunct2, rule_format, OF conjI [OF acme_run ls]]
    by - (rule goal)
qed

text \<open>
  The claim as it is worded does not hold: a watermark later than the run's timestamp,
  as a clock set back leaves it, is replaced by the earlier timestamp.
\<close>

theorem watermark_can_decrease:
  "watermark (PDict [(''7'', PInt 2000000000)]) ''7'' = Some 2000000000 \<and>
   dumped (run_events (main plain_lib acme_provider full_environ
      (FileContent (Some (acme_config [acme])))
      (FileContent (Some (PDict [(''7'', PInt 2000000000)]))) (CHR ''1'') 1700000000))
     = [PDict [(''7'', PInt 1700000000)]] \<and>
   watermark (PDict [(''7'', PInt 1700000000)]) ''7'' = Some 1700000000 \<and>
   (1700000000 :: int) < 2000000000"
  by (simp add: acme_run run_events_def acme_dumped watermark_def)

subsection \<open>The write of the state file\<close>

text \<open>
  \<^bold>\<open>C7\<close>. The events of a run touch the state file in one place only. A run that
  returns ends with the block of lines 473 to 477 (open for writing, dump, flush,
  \<^verbatim>\<open>fsync\<close>, close), once, after the loop over the subaccounts, and then the file
  holds the dumped state; a run that exits or raises has no state-file event at all. An
  interruption at any point before the file is opened leaves the file as the prior run
  left it. (Between the opening, which truncates the file, and the flush, the file is
  empty: the write is not atomic.)
\<close>

theorem state_written_once_at_end:
  assumes run: "main L w env cf sf day now = Some (evs, out)"
  shows "(out = Returned \<longrightarrow>
           (\<exists>pre s. evs = pre @ write_state s \<and> no_state_events pre \<and>
                    dumped evs = [s] \<and> disk_after evs = Holds s)) \<and>
         (out \<noteq> Returned \<longrightarrow> no_state_events evs) \<and>
         (\<forall>k. no_state_events (take k evs) \<longrightarrow> disk_after (take k evs) = Intact)"
proof (intro conjI impI allI)
  assume "out = Returned"
  with main_returned run obtain pre s where "evs = pre @ write_state s" "no_state_events pre"
    by blast
  then show "\<exists>pre s. evs = pre @ write_state s \<and> no_state_events pre \<and>
                    dumped evs = [s] \<and> disk_after evs = Holds s"
    by (auto simp: disk_after_write dumped_write)
next
  assume "out \<noteq> Returned"
  with run show "no_state_events evs" by (rule main_aborted)
next
  fix k
  assume "no_state_events (take k evs)"
  then show "disk_after (take k evs) = Intact" by (rule disk_after_untouched)
qed

theorem state_written_once_example:
  "run_outcome (main plain_lib acme_provider full_environ
       (FileContent (Some (acme_config [acme])))
       (FileContent (Some (PDict [(''7'', PInt 1600000000)]))) (CHR ''1'') 1700000000)
     = Some Returned \<and>
   disk_after (run_events (main plain_lib acme_provider full_environ
       (FileContent (Some (acme_config [acme])))
       (FileContent (Some (PDict [(''7'', PInt 1600000000)]))) (CHR ''1'') 1700000000))
     = Holds (PDict [(''7'', PInt 1700000000)])"
proof -
  have goal: ?thesis
    by (simp add: acme_run run_outcome_def run_events_def
          disk_after_write [OF acme_events_no_state])
  show ?thesis
    using state_written_once_at_end [OF acme_run [of 1600000000]]
    by - (rule goal)
qed

text \<open>
  The claim as it is worded does not hold: interrupted after the state file is opened
  and before the dump is flushed, the run leaves a truncated file, which is neither the
  prior file nor the new one.
\<close>

theorem state_write_not_atomic:
  "disk_after (take 6 (run_events (main plain_lib acme_provider full_environ
       (FileContent (Some (acme_config [acme])))
       (FileContent (Some (PDict [(''7'', PInt 1600000000)]))) (CHR ''1'') 1700000000)))
     = Truncated \<and>
   \<not> atomic_write (run_events (main plain_lib acme_provider full_environ
       (FileContent (Some (acme_config [acme])))
       (FileContent (Some (PDict [(''7'', PInt 1600000000)]))) (CHR ''1'') 1700000000))"
proof -
  let ?evs = "acme_events 1600000000 @ write_state (PDict [(''7'', PInt 1700000000)])"
  have len: "length (acme_events 1600000000) = 5"
    by (simp add: acme_events_def directory_requests_def)
  have six: "take 6 ?evs = acme_events 1600000000 @ [StateOpenW]"
    by (simp add: len write_state_def)
  have cut: "disk_after (take 6 ?evs) = Truncated"
    unfolding six by (simp add: disk_after_def disk_untouched [OF acme_events_no_state])
  have whole: "disk_after ?evs = Holds (PDict [(''7'', PInt 1700000000)])"
    by (rule disk_after_write [OF acme_events_no_state])
  have "6 \<in> set [0..<Suc (length ?evs)]"
    by (simp add: len write_state_def)
  with cut whole have "\<not> atomic_write ?evs"
    unfolding atomic_write_def list_all_iff by (metis disk.distinct(1) disk.distinct(5))
  with cut show ?thesis
    by (simp add: acme_run run_events_def)
qed

end
